theory Spec2Isabelle
  imports Complex_Main "HOL-Library.Multiset" "HOL-Library.Sublist"
begin

section \<open>Data model of the event gallery\<close>

text \<open>
  The repository holds two variants of one React component, \<^verbatim>\<open>ViewEvent\<close>:
  \<^item> strategy A (\<^verbatim>\<open>src/components/ViewEvent.tsx\<close>): every image is indexed, every
    detected face is searched by face id, groups hold face records;
  \<^item> strategy B (\<^verbatim>\<open>unnamed/part_000\<close>): every image is searched and then indexed
    under its group id, groups hold images.
  Definitions that exist in both files with different bodies carry the suffix \<open>_A\<close> or
  \<open>_B\<close>; code that is the same in both files is modelled once.

  An \<^verbatim>\<open>EventImage\<close> object is immutable after creation. The field \<open>oid\<close> is the identity
  of the JavaScript object: \<^verbatim>\<open>Array.prototype.includes\<close> compares objects by identity, and
  two objects made from the same storage key are different objects.
\<close>

record EventImage =
  oid :: nat
  url :: string
  key :: string

record 'bb FaceRecordWithImage =
  faceId :: string
  boundingBox :: "'bb option"
  img :: EventImage

text \<open>
  What the code can throw or catch: an exception of a service client, a \<^verbatim>\<open>TypeError\<close>
  of the JavaScript engine, or an \<^verbatim>\<open>Error\<close> the component creates itself. Each carries
  its \<^verbatim>\<open>message\<close>. An awaited promise settles either way.
\<close>

datatype js_error = ServiceException string | TypeError string | Error string

fun message :: "js_error \<Rightarrow> string" where
  "message (ServiceException m) = m"
| "message (TypeError m) = m"
| "message (Error m) = m"

datatype 'a settled = Rejected js_error | Fulfilled 'a

text \<open>
  The \<^verbatim>\<open>useState\<close> cells of the component. \<^verbatim>\<open>FaceGroups\<close> is a JavaScript object used as
  a dictionary: an association list in insertion order whose keys are distinct. Strategy A
  has one more cell, \<^verbatim>\<open>allFaceRecords\<close>.
\<close>

record 'm gallery =
  deleting :: "string list"
  images :: "EventImage list"
  faceGroups :: "(string \<times> 'm list) list"
  error :: "string option"
  loading :: bool
  uploading :: bool
  uploadProgress :: int

record 'bb gallery_A = "'bb FaceRecordWithImage gallery" +
  allFaceRecords :: "'bb FaceRecordWithImage list"

section \<open>handleDelete\<close>

text \<open>
  \<^verbatim>\<open>handleDelete\<close> runs in two synchronous pieces around the awaited
  \<^verbatim>\<open>DeleteObjectCommand\<close>: what runs before the \<^verbatim>\<open>await\<close>, and what runs once the promise
  has settled (the rest of the \<^verbatim>\<open>try\<close> block or the \<^verbatim>\<open>catch\<close>, then \<^verbatim>\<open>finally\<close>). Every
  state update is a functional update \<^verbatim>\<open>prev => ...\<close>, so the second piece applies to
  whatever the state is when the promise settles.
\<close>

definition handleDelete_begin ::
  "EventImage \<Rightarrow> ('m, 'z) gallery_scheme \<Rightarrow> ('m, 'z) gallery_scheme" where
  "handleDelete_begin im s = s\<lparr>deleting := deleting s @ [key im]\<rparr>"

definition handleDelete_finally ::
  "EventImage \<Rightarrow> ('m, 'z) gallery_scheme \<Rightarrow> ('m, 'z) gallery_scheme" where
  "handleDelete_finally im s = s\<lparr>deleting := filter (\<lambda>k. k \<noteq> key im) (deleting s)\<rparr>"

text \<open>
  Strategy A: the first loop copies every group with the face records of the image
  filtered out, the second loop deletes the groups left empty.
\<close>

definition retract_A ::
  "EventImage \<Rightarrow> (string \<times> 'bb FaceRecordWithImage list) list
     \<Rightarrow> (string \<times> 'bb FaceRecordWithImage list) list" where
  "retract_A im prev =
     filter (\<lambda>(groupId, faceRecs). faceRecs \<noteq> [])
       (map (\<lambda>(groupId, faceRecs).
              (groupId, filter (\<lambda>fr. key (img fr) \<noteq> key im) faceRecs)) prev)"

definition handleDelete_settled_A ::
  "unit settled \<Rightarrow> EventImage \<Rightarrow> 'bb gallery_A \<Rightarrow> 'bb gallery_A" where
  "handleDelete_settled_A r im s =
     handleDelete_finally im
       (case r of
          Fulfilled _ \<Rightarrow>
            s\<lparr>images := filter (\<lambda>i. key i \<noteq> key im) (images s),
              faceGroups := retract_A im (faceGroups s),
              allFaceRecords := filter (\<lambda>fr. key (img fr) \<noteq> key im) (allFaceRecords s)\<rparr>
        | Rejected e \<Rightarrow> s)"

definition handleDelete_A ::
  "unit settled \<Rightarrow> EventImage \<Rightarrow> 'bb gallery_A \<Rightarrow> 'bb gallery_A" where
  "handleDelete_A r im s = handleDelete_settled_A r im (handleDelete_begin im s)"

text \<open>
  Strategy B: the groups are copied with the image filtered out of each; there is no
  second loop.
\<close>

definition retract_B ::
  "EventImage \<Rightarrow> (string \<times> EventImage list) list \<Rightarrow> (string \<times> EventImage list) list" where
  "retract_B im prev =
     map (\<lambda>(groupId, imgs). (groupId, filter (\<lambda>i. key i \<noteq> key im) imgs)) prev"

definition handleDelete_settled_B ::
  "unit settled \<Rightarrow> EventImage \<Rightarrow> EventImage gallery \<Rightarrow> EventImage gallery" where
  "handleDelete_settled_B r im s =
     handleDelete_finally im
       (case r of
          Fulfilled _ \<Rightarrow>
            s\<lparr>images := filter (\<lambda>i. key i \<noteq> key im) (images s),
              faceGroups := retract_B im (faceGroups s)\<rparr>
        | Rejected e \<Rightarrow> s)"

definition handleDelete_B ::
  "unit settled \<Rightarrow> EventImage \<Rightarrow> EventImage gallery \<Rightarrow> EventImage gallery" where
  "handleDelete_B r im s = handleDelete_settled_B r im (handleDelete_begin im s)"

section \<open>JavaScript values the grouping code relies on\<close>

text \<open>
  A template literal renders a non-negative integer in decimal, without leading zeros.
\<close>

fun dec :: "nat \<Rightarrow> string" where
  "dec n = (if n < 10 then [char_of (48 + n)] else dec (n div 10) @ [char_of (48 + n mod 10)])"

declare dec.simps [simp del]

text \<open>
  \<^verbatim>\<open>!!x\<close> on an optional string: \<^verbatim>\<open>undefined\<close> and the empty string are falsy.
\<close>

fun truthy :: "string option \<Rightarrow> string list" where
  "truthy None = []"
| "truthy (Some x) = (if x = [] then [] else [x])"

text \<open>
  Both strategies build the partition with the same loop body,
  \<^verbatim>\<open>if (!groups[gid]) groups[gid] = []; groups[gid].push(x)\<close>, on an object created as
  \<^verbatim>\<open>{}\<close>. A property read on such an object falls back to \<^verbatim>\<open>Object.prototype\<close>: for a
  \<open>gid\<close> that is not an own property but names a property of the prototype, the read gives
  a function or an object, the test \<^verbatim>\<open>!groups[gid]\<close> is false, and \<^verbatim>\<open>.push\<close> is not a
  function, so the call throws a \<^verbatim>\<open>TypeError\<close> (its message text is the engine's).
\<close>

definition inherited :: "string list" where
  "inherited =
     [''constructor'', ''__defineGetter__'', ''__defineSetter__'', ''hasOwnProperty'',
      ''__lookupGetter__'', ''__lookupSetter__'', ''isPrototypeOf'', ''propertyIsEnumerable'',
      ''toString'', ''valueOf'', ''__proto__'', ''toLocaleString'']"

definition push_group ::
  "string \<Rightarrow> 'a \<Rightarrow> (string \<times> 'a list) list \<Rightarrow> js_error + (string \<times> 'a list) list" where
  "push_group gid x groups =
     (case map_of groups gid of
        Some xs \<Rightarrow> Inr (map (\<lambda>(g, ys). if g = gid then (g, ys @ [x]) else (g, ys)) groups)
      | None \<Rightarrow>
          if gid \<in> set inherited then Inl (TypeError ''groups[gid].push is not a function'')
          else Inr (groups @ [(gid, [x])]))"

fun bucket_by ::
  "('a \<Rightarrow> string) \<Rightarrow> 'a list \<Rightarrow> (string \<times> 'a list) list
     \<Rightarrow> js_error + (string \<times> 'a list) list" where
  "bucket_by gid_of [] groups = Inr groups"
| "bucket_by gid_of (x # xs) groups =
     (case push_group (gid_of x) x groups of
        Inl e \<Rightarrow> Inl e
      | Inr groups' \<Rightarrow> bucket_by gid_of xs groups')"

section \<open>The recognition service as seen by the component\<close>

text \<open>
  Responses carry only the fields the component reads. \<open>Face_r\<close> is the \<^verbatim>\<open>Face\<close> of a
  \<^verbatim>\<open>FaceRecord\<close> (index response), \<open>Face\<close> the \<^verbatim>\<open>Face\<close> of a \<^verbatim>\<open>FaceMatch\<close> (search
  response). Face ids are the service's UUID strings.
\<close>

record 'bb Face =
  FaceId :: "string option"
  BoundingBox :: "'bb option"
  ExternalImageId :: "string option"

record 'bb FaceRecord =
  Face_r :: "'bb Face option"

record 'bb IndexFacesResponse =
  FaceRecords :: "'bb FaceRecord list option"

record 'bb FaceMatch =
  Face :: "'bb Face option"

record 'bb SearchFacesResponse =
  FaceMatches :: "'bb FaceMatch list option"

text \<open>The commands the component sends, with the parameters it sets.\<close>

datatype command =
    ListCollectionsCommand
  | CreateCollectionCommand (CollectionId: string)
  | IndexFacesCommand (CollectionId: string) (Bucket: string) (Name: string)
      (ExternalImageId_c: string)
  | SearchFacesCommand (CollectionId: string) (FaceId_c: string) (MaxFaces: nat)
      (FaceMatchThreshold: nat)
  | SearchFacesByImageCommand (CollectionId: string) (Bucket: string) (Name: string)
      (FaceMatchThreshold: nat) (MaxFaces: nat)
  | ListObjectsV2Command (Bucket: string) (Prefix: string)
  | DeleteObjectCommand (Bucket: string) (Key_c: string)

text \<open>
  \<^verbatim>\<open>ensureCollection\<close> catches whatever its two calls throw and changes no local state;
  all that is left of it is the commands it sends.
\<close>

definition ensureCollection ::
  "string list option settled \<Rightarrow> unit settled \<Rightarrow> string \<Rightarrow> command list" where
  "ensureCollection listed created collectionId =
     (case listed of
        Rejected e \<Rightarrow> [ListCollectionsCommand]
      | Fulfilled ids \<Rightarrow>
          (let collections = (case ids of None \<Rightarrow> [] | Some cs \<Rightarrow> cs)
           in if collectionId \<notin> set collections
              then (case created of
                      Rejected e \<Rightarrow> [ListCollectionsCommand, CreateCollectionCommand collectionId]
                    | Fulfilled _ \<Rightarrow> [ListCollectionsCommand, CreateCollectionCommand collectionId])
              else [ListCollectionsCommand]))"

section \<open>Strategy A: detectAndGroupFaces\<close>

text \<open>
  One execution of the pass meets one behaviour of the outside world: how every awaited
  call settles, and in which order the calls of a \<^verbatim>\<open>Promise.all\<close> batch settle. The
  callbacks of a batch all start in list order (each runs up to its \<^verbatim>\<open>await\<close>); the rest
  of each callback runs, uninterrupted, when its own call has settled. Calls are numbered
  by their position in the list the batch maps over; an order is a list of positions, and
  a position outside the list stands for no call.
\<close>

record ensure_world =
  listed :: "string list option settled"
  created :: "unit settled"

record 'bb world_A = ensure_world +
  indexed :: "nat \<Rightarrow> 'bb IndexFacesResponse settled"
  index_order :: "nat list"
  found :: "nat \<Rightarrow> 'bb SearchFacesResponse settled"
  search_order :: "nat list"

text \<open>
  Phase 1, the rest of one callback: the face records one image adds to
  \<^verbatim>\<open>tempFaceRecords\<close>. A rejected call is caught and adds nothing.
\<close>

definition face_records_of ::
  "EventImage \<Rightarrow> 'bb IndexFacesResponse settled \<Rightarrow> 'bb FaceRecordWithImage list" where
  "face_records_of im r =
     (case r of
        Rejected e \<Rightarrow> []
      | Fulfilled indexResponse \<Rightarrow>
          (case FaceRecords indexResponse of
             None \<Rightarrow> []
           | Some recs \<Rightarrow>
               concat (map (\<lambda>fr.
                 case Face_r fr of
                   None \<Rightarrow> []
                 | Some f \<Rightarrow>
                     map (\<lambda>fid. \<lparr>faceId = fid, boundingBox = BoundingBox f, img = im\<rparr>)
                       (truthy (FaceId f))) recs)))"

definition index_phase ::
  "'bb world_A \<Rightarrow> EventImage list \<Rightarrow> 'bb FaceRecordWithImage list" where
  "index_phase w imagesToProcess =
     concat (map (\<lambda>i. face_records_of (imagesToProcess ! i) (indexed w i))
       (filter (\<lambda>i. i < length imagesToProcess) (index_order w)))"

text \<open>
  Phase 2 shares \<^verbatim>\<open>faceIdToGroupId\<close> and \<^verbatim>\<open>groupCount\<close> between the callbacks. The
  keys of \<^verbatim>\<open>faceIdToGroupId\<close> are face ids of the service, which are UUIDs and so never
  name a property of \<^verbatim>\<open>Object.prototype\<close>; the object is modelled as a map.
\<close>

type_synonym grouping = "(string \<rightharpoonup> string) \<times> nat"

definition new_group :: "string \<Rightarrow> grouping \<Rightarrow> grouping" where
  "new_group fid g = ((fst g)(fid \<mapsto> ''group_'' @ dec (snd g + 1)), snd g + 1)"

definition matchedGroupIds :: "(string \<rightharpoonup> string) \<Rightarrow> 'bb FaceMatch list \<Rightarrow> string list" where
  "matchedGroupIds faceIdToGroupId ms =
     concat (map (\<lambda>fid. truthy (faceIdToGroupId fid))
       (concat (map (\<lambda>m. truthy (case Face m of None \<Rightarrow> None | Some f \<Rightarrow> FaceId f)) ms)))"

definition search_settled ::
  "'bb FaceRecordWithImage \<Rightarrow> 'bb SearchFacesResponse settled \<Rightarrow> grouping \<Rightarrow> grouping" where
  "search_settled faceRec r g =
     (case r of
        Rejected e \<Rightarrow> new_group (faceId faceRec) g
      | Fulfilled searchResponse \<Rightarrow>
          (case FaceMatches searchResponse of
             None \<Rightarrow> new_group (faceId faceRec) g
           | Some ms \<Rightarrow>
               if ms \<noteq> [] then
                 (case matchedGroupIds (fst g) ms of
                    gid # _ \<Rightarrow> ((fst g)(faceId faceRec \<mapsto> gid), snd g)
                  | [] \<Rightarrow> new_group (faceId faceRec) g)
               else new_group (faceId faceRec) g))"

definition search_phase :: "'bb world_A \<Rightarrow> 'bb FaceRecordWithImage list \<Rightarrow> grouping" where
  "search_phase w tempFaceRecords =
     foldl (\<lambda>g j. search_settled (tempFaceRecords ! j) (found w j) g) (Map.empty, 0)
       (filter (\<lambda>j. j < length tempFaceRecords) (search_order w))"

text \<open>
  The final loop reads \<^verbatim>\<open>faceIdToGroupId[faceRec.faceId]\<close>; a missing entry would be
  \<^verbatim>\<open>undefined\<close>, which as a property key is the string \<^verbatim>\<open>"undefined"\<close>.
\<close>

definition resolved :: "(string \<rightharpoonup> string) \<Rightarrow> 'bb FaceRecordWithImage \<Rightarrow> string" where
  "resolved faceIdToGroupId faceRec =
     (case faceIdToGroupId (faceId faceRec) of Some gid \<Rightarrow> gid | None \<Rightarrow> ''undefined'')"

definition sent_A :: "'bb world_A \<Rightarrow> string \<Rightarrow> string \<Rightarrow> EventImage list \<Rightarrow> command list" where
  "sent_A w bucket eventId imagesToProcess =
     ensureCollection (listed w) (created w) eventId
     @ map (\<lambda>im. IndexFacesCommand eventId bucket (key im) ''placeholder'') imagesToProcess
     @ map (\<lambda>faceRec. SearchFacesCommand eventId (faceId faceRec) 5 80)
         (index_phase w imagesToProcess)"

definition newGroups_A ::
  "'bb world_A \<Rightarrow> EventImage list
     \<Rightarrow> js_error + (string \<times> 'bb FaceRecordWithImage list) list" where
  "newGroups_A w imagesToProcess =
     (let tempFaceRecords = index_phase w imagesToProcess;
          faceIdToGroupId = fst (search_phase w tempFaceRecords)
      in bucket_by (resolved faceIdToGroupId) tempFaceRecords [])"

text \<open>
  The pass as a transformer of the component state, with the exception it throws, if any.
  \<^verbatim>\<open>setAllFaceRecords\<close> runs between the phases, \<^verbatim>\<open>setFaceGroups\<close> at the very end.
\<close>

definition detectAndGroupFaces_A ::
  "'bb world_A \<Rightarrow> EventImage list \<Rightarrow> 'bb gallery_A \<Rightarrow> 'bb gallery_A \<times> js_error option" where
  "detectAndGroupFaces_A w imagesToProcess s =
     (let s1 = s\<lparr>allFaceRecords := index_phase w imagesToProcess\<rparr>
      in case newGroups_A w imagesToProcess of
           Inl e \<Rightarrow> (s1, Some e)
         | Inr newGroups \<Rightarrow> (s1\<lparr>faceGroups := newGroups\<rparr>, None))"

section \<open>Strategy B: detectAndGroupFaces\<close>

text \<open>
  Each image's callback awaits its search, resolves a group id, awaits its index call and
  returns \<^verbatim>\<open>{ key, groupId }\<close> (here a pair). The callbacks share no local state, and
  \<^verbatim>\<open>Promise.all\<close> returns the results in list order. \<open>stamped\<close> gives, for each
  callback, the value of \<^verbatim>\<open>Date.now()\<close> and the string
  \<^verbatim>\<open>Math.random().toString(36).substring(2, 8)\<close> it would read.
\<close>

record 'bb world_B = ensure_world +
  matched :: "nat \<Rightarrow> 'bb SearchFacesResponse settled"
  stamped :: "nat \<Rightarrow> nat \<times> string"
  tagged :: "nat \<Rightarrow> unit settled"

text \<open>
  The value of \<^verbatim>\<open>groupId\<close> after the first \<^verbatim>\<open>try\<close> block. A rejected search, and a
  \<^verbatim>\<open>TypeError\<close> on \<^verbatim>\<open>match.Face.ExternalImageId\<close>, are caught and leave it empty.
\<close>

definition searched_groupId :: "EventImage \<Rightarrow> 'bb SearchFacesResponse settled \<Rightarrow> string" where
  "searched_groupId im r =
     (case r of
        Rejected e \<Rightarrow> []
      | Fulfilled searchResponse \<Rightarrow>
          (case FaceMatches searchResponse of
             None \<Rightarrow> []
           | Some ms \<Rightarrow>
               if ms \<noteq> [] then
                 (case find (\<lambda>m. case Face m of
                                    None \<Rightarrow> False
                                  | Some f \<Rightarrow> truthy (ExternalImageId f) \<noteq> []
                                      \<and> ExternalImageId f \<noteq> Some (key im)) ms of
                    None \<Rightarrow> []
                  | Some match \<Rightarrow>
                      (case Face match of
                         None \<Rightarrow> []
                       | Some f \<Rightarrow> (case ExternalImageId f of None \<Rightarrow> [] | Some t \<Rightarrow> t)))
               else []))"

definition mint :: "nat \<times> string \<Rightarrow> string" where
  "mint st = ''group_'' @ dec (fst st) @ ''_'' @ snd st"

definition resolve_groupId :: "'bb world_B \<Rightarrow> nat \<Rightarrow> EventImage \<Rightarrow> string" where
  "resolve_groupId w i im =
     (let groupId = searched_groupId im (matched w i)
      in if groupId = [] then mint (stamped w i) else groupId)"

definition group_image ::
  "'bb world_B \<Rightarrow> string \<Rightarrow> string \<Rightarrow> nat \<Rightarrow> EventImage
     \<Rightarrow> (string \<times> string) \<times> command list" where
  "group_image w bucket eventId i im =
     (let groupId = resolve_groupId w i im
      in (case tagged w i of
            Rejected e \<Rightarrow> (key im, groupId)
          | Fulfilled _ \<Rightarrow> (key im, groupId),
          [SearchFacesByImageCommand eventId bucket (key im) 80 10,
           IndexFacesCommand eventId bucket (key im) groupId]))"

definition results_B ::
  "'bb world_B \<Rightarrow> string \<Rightarrow> string \<Rightarrow> EventImage list \<Rightarrow> (string \<times> string) list" where
  "results_B w bucket eventId ims =
     map (\<lambda>(i, im). fst (group_image w bucket eventId i im)) (enumerate 0 ims)"

definition sent_B ::
  "'bb world_B \<Rightarrow> string \<Rightarrow> string \<Rightarrow> EventImage list \<Rightarrow> command list" where
  "sent_B w bucket eventId ims =
     ensureCollection (listed w) (created w) eventId
     @ concat (map (\<lambda>(i, im). snd (group_image w bucket eventId i im)) (enumerate 0 ims))"

definition gid_B :: "(string \<times> string) list \<Rightarrow> EventImage \<Rightarrow> string" where
  "gid_B results im =
     (case find (\<lambda>r. fst r = key im) results of
        Some result \<Rightarrow> snd result
      | None \<Rightarrow> ''unknown'')"

definition groups_B ::
  "'bb world_B \<Rightarrow> string \<Rightarrow> string \<Rightarrow> EventImage list
     \<Rightarrow> js_error + (string \<times> EventImage list) list" where
  "groups_B w bucket eventId ims =
     bucket_by (gid_B (results_B w bucket eventId ims)) ims []"

definition detectAndGroupFaces_B ::
  "'bb world_B \<Rightarrow> string \<Rightarrow> string \<Rightarrow> EventImage list \<Rightarrow> EventImage gallery
     \<Rightarrow> EventImage gallery \<times> js_error option" where
  "detectAndGroupFaces_B w bucket eventId ims s =
     (case groups_B w bucket eventId ims of
        Inl e \<Rightarrow> (s, Some e)
      | Inr groups \<Rightarrow> (s\<lparr>faceGroups := groups\<rparr>, None))"

text \<open>
  What strategy B renders under "Other Images":
  \<^verbatim>\<open>images.filter(image => !Object.values(faceGroups).flat().includes(image))\<close>.
\<close>

definition otherImages :: "EventImage gallery \<Rightarrow> EventImage list" where
  "otherImages s =
     filter (\<lambda>im. oid im \<notin> oid ` set (concat (map snd (faceGroups s)))) (images s)"

section \<open>fetchEventImages\<close>

text \<open>
  The listing keeps the objects whose key matches \<^verbatim>\<open>/\.(jpg|jpeg|png)$/i\<close>. Keys are
  modelled as byte strings; the flag \<^verbatim>\<open>i\<close> folds the case of ASCII letters.
\<close>

record S3Object =
  Key :: "string option"

record ListObjectsV2Output =
  Contents :: "S3Object list option"

definition lower :: "char \<Rightarrow> char" where
  "lower c = (let n = of_char c :: nat in if 65 \<le> n \<and> n \<le> 90 then char_of (n + 32) else c)"

definition is_image_key :: "string \<Rightarrow> bool" where
  "is_image_key k =
     (suffix ''.jpg'' (map lower k) \<or> suffix ''.jpeg'' (map lower k)
      \<or> suffix ''.png'' (map lower k))"

text \<open>
  \<^verbatim>\<open>.map(item => ({ url, key }))\<close> creates one new object per kept item; \<open>fresh\<close> is the
  first object identity not yet in use.
\<close>

definition imageItems :: "string \<Rightarrow> nat \<Rightarrow> S3Object list \<Rightarrow> EventImage list" where
  "imageItems bucket fresh contents =
     map (\<lambda>(n, k). \<lparr>oid = n, url = ''https://'' @ bucket @ ''.s3.amazonaws.com/'' @ k, key = k\<rparr>)
       (enumerate fresh
          (concat (map (\<lambda>item. filter is_image_key (truthy (Key item))) contents)))"

definition eventToUse :: "string option \<Rightarrow> string \<Rightarrow> string" where
  "eventToUse selectedEvent eventId =
     (case truthy selectedEvent of e # _ \<Rightarrow> e | [] \<Rightarrow> eventId)"

definition prefixes_for :: "string \<Rightarrow> string list" where
  "prefixes_for event = [''events/shared/'' @ event @ ''/images'']"

text \<open>
  The loop over the prefixes, on the pair \<^verbatim>\<open>(allImages, fetchError)\<close>; \<open>listing\<close> tells
  how the \<^verbatim>\<open>ListObjectsV2Command\<close> for a prefix settles.
\<close>

fun list_prefixes ::
  "(string \<Rightarrow> ListObjectsV2Output settled) \<Rightarrow> string \<Rightarrow> nat \<Rightarrow> string list
     \<Rightarrow> EventImage list \<times> js_error option \<Rightarrow> EventImage list \<times> js_error option" where
  "list_prefixes listing bucket fresh [] acc = acc"
| "list_prefixes listing bucket fresh (p # ps) (allImages, fetchError) =
     (case listing p of
        Rejected e \<Rightarrow> list_prefixes listing bucket fresh ps (allImages, Some e)
      | Fulfilled result \<Rightarrow>
          (case Contents result of
             None \<Rightarrow> list_prefixes listing bucket fresh ps (allImages, fetchError)
           | Some contents \<Rightarrow>
               list_prefixes listing bucket fresh ps
                 (allImages @ imageItems bucket (fresh + length allImages) contents,
                  fetchError)))"

text \<open>
  The body after the loop, parametrised by the grouping pass \<open>detect\<close> of the variant.
  An exception thrown inside the outer \<^verbatim>\<open>try\<close> ends in \<^verbatim>\<open>setError(error.message)\<close>;
  \<^verbatim>\<open>finally\<close> clears \<^verbatim>\<open>loading\<close>.
\<close>

definition after_listing ::
  "(EventImage list \<Rightarrow> ('m, 'z) gallery_scheme \<Rightarrow> ('m, 'z) gallery_scheme \<times> js_error option)
     \<Rightarrow> EventImage list \<times> js_error option
     \<Rightarrow> ('m, 'z) gallery_scheme \<Rightarrow> ('m, 'z) gallery_scheme" where
  "after_listing detect acc s =
     (let allImages = fst acc; fetchError = snd acc;
          tried =
            (if allImages \<noteq> [] then
               (case detect allImages (s\<lparr>images := allImages\<rparr>) of
                  (s1, None) \<Rightarrow> (s1\<lparr>error := None\<rparr>, None)
                | (s1, Some e) \<Rightarrow> (s1, Some e))
             else
               (case fetchError of
                  Some e \<Rightarrow> (s, Some e)
                | None \<Rightarrow> (s\<lparr>error := Some ''No images found for this event.''\<rparr>, None)));
          caught =
            (case snd tried of
               Some e \<Rightarrow> (fst tried)\<lparr>error := Some (message e)\<rparr>
             | None \<Rightarrow> fst tried)
      in caught\<lparr>loading := False\<rparr>)"

definition fetchEventImages ::
  "(EventImage list \<Rightarrow> ('m, 'z) gallery_scheme \<Rightarrow> ('m, 'z) gallery_scheme \<times> js_error option)
     \<Rightarrow> (string \<Rightarrow> ListObjectsV2Output settled) \<Rightarrow> string \<Rightarrow> nat
     \<Rightarrow> string option \<Rightarrow> string
     \<Rightarrow> ('m, 'z) gallery_scheme \<Rightarrow> ('m, 'z) gallery_scheme" where
  "fetchEventImages detect listing bucket fresh selectedEvent eventId s =
     after_listing detect
       (list_prefixes listing bucket fresh (prefixes_for (eventToUse selectedEvent eventId)) ([], None))
       s"

definition fetchEventImages_A ::
  "'bb world_A \<Rightarrow> (string \<Rightarrow> ListObjectsV2Output settled) \<Rightarrow> string \<Rightarrow> nat
     \<Rightarrow> string option \<Rightarrow> string \<Rightarrow> 'bb gallery_A \<Rightarrow> 'bb gallery_A" where
  "fetchEventImages_A w = fetchEventImages (detectAndGroupFaces_A w)"

definition fetchEventImages_B ::
  "'bb world_B \<Rightarrow> (string \<Rightarrow> ListObjectsV2Output settled) \<Rightarrow> string \<Rightarrow> nat
     \<Rightarrow> string option \<Rightarrow> string \<Rightarrow> EventImage gallery \<Rightarrow> EventImage gallery" where
  "fetchEventImages_B w listing bucket fresh selectedEvent eventId =
     fetchEventImages (detectAndGroupFaces_B w bucket eventId) listing bucket fresh
       selectedEvent eventId"

section \<open>handleFileChange\<close>

text \<open>
  Every file of the batch gets its own \<^verbatim>\<open>Upload\<close>, all started together by
  \<^verbatim>\<open>Promise.all\<close>, and every \<^verbatim>\<open>httpUploadProgress\<close> event of every upload runs the same
  callback on the one \<^verbatim>\<open>uploadProgress\<close> cell. An event is modelled with the position of
  its file in the batch. The quotient is computed here on exact rationals;
  \<^verbatim>\<open>Math.round\<close> rounds to the nearest integer, halves upwards.
\<close>

record progress =
  loaded :: "nat option"
  total_bytes :: "nat option"  \<comment> \<open>\<^verbatim>\<open>progress.total\<close>\<close>

definition percentage :: "progress \<Rightarrow> int" where
  "percentage p =
     round (of_nat (case loaded p of None \<Rightarrow> 0 | Some l \<Rightarrow> l) * 100
            / of_nat (case total_bytes p of None \<Rightarrow> 1 | Some t \<Rightarrow> if t = 0 then 1 else t) :: rat)"

definition httpUploadProgress ::
  "progress \<Rightarrow> ('m, 'z) gallery_scheme \<Rightarrow> ('m, 'z) gallery_scheme" where
  "httpUploadProgress p s = s\<lparr>uploadProgress := percentage p\<rparr>"

text \<open>The successive states of the component while the events of a batch arrive.\<close>

fun upload_trace ::
  "(nat \<times> progress) list \<Rightarrow> ('m, 'z) gallery_scheme \<Rightarrow> ('m, 'z) gallery_scheme list" where
  "upload_trace [] s = []"
| "upload_trace (ev # evs) s =
     httpUploadProgress (snd ev) s # upload_trace evs (httpUploadProgress (snd ev) s)"

definition handleFileChange_finally ::
  "('m, 'z) gallery_scheme \<Rightarrow> ('m, 'z) gallery_scheme" where
  "handleFileChange_finally s = s\<lparr>uploading := False, uploadProgress := 0\<rparr>"

text \<open>
  The handler, up to what it does once the uploads are through (\<open>refresh\<close>). \<open>chosen\<close>
  is the number of files of the change event, \<open>uploaded\<close> how the \<^verbatim>\<open>Promise.all\<close> of the
  uploads settles; the progress events are taken to arrive before that. The second
  component of the result is an exception that leaves the handler.
\<close>

definition handleFileChange ::
  "(('m, 'z) gallery_scheme \<Rightarrow> ('m, 'z) gallery_scheme \<times> js_error option)
     \<Rightarrow> nat \<Rightarrow> string option \<Rightarrow> (nat \<times> progress) list \<Rightarrow> unit settled
     \<Rightarrow> ('m, 'z) gallery_scheme \<Rightarrow> ('m, 'z) gallery_scheme \<times> js_error option" where
  "handleFileChange refresh chosen userEmail evs uploaded s =
     (if chosen = 0 then (s, None)
      else if truthy userEmail = [] then (s, Some (Error ''User not authenticated''))
      else
        (let s1 = last (s\<lparr>uploading := True\<rparr> # upload_trace evs (s\<lparr>uploading := True\<rparr>));
             tried = (case uploaded of Rejected e \<Rightarrow> (s1, Some e) | Fulfilled _ \<Rightarrow> refresh s1);
             caught =
               (case snd tried of
                  Some e \<Rightarrow>
                    (fst tried)\<lparr>error :=
                      Some (if message e = [] then ''Failed to upload images. Please try again.''
                            else message e)\<rparr>
                | None \<Rightarrow> fst tried)
         in (handleFileChange_finally caught, None)))"

text \<open>
  Strategy A refreshes with \<^verbatim>\<open>fetchEventImages\<close>, which never throws.
\<close>

definition handleFileChange_A ::
  "'bb world_A \<Rightarrow> (string \<Rightarrow> ListObjectsV2Output settled) \<Rightarrow> string \<Rightarrow> nat
     \<Rightarrow> string option \<Rightarrow> string
     \<Rightarrow> nat \<Rightarrow> string option \<Rightarrow> (nat \<times> progress) list \<Rightarrow> unit settled
     \<Rightarrow> 'bb gallery_A \<Rightarrow> 'bb gallery_A \<times> js_error option" where
  "handleFileChange_A w listing bucket fresh selectedEvent eventId =
     handleFileChange
       (\<lambda>s1. (fetchEventImages_A w listing bucket fresh selectedEvent eventId s1, None))"

text \<open>
  Strategy B refreshes with \<^verbatim>\<open>fetchEventImages\<close> and then calls
  \<^verbatim>\<open>detectAndGroupFaces(images)\<close> once more. That \<^verbatim>\<open>images\<close> is the constant of the render
  that created the handler; \<^verbatim>\<open>images\<close> is in the dependency list of \<^verbatim>\<open>useCallback\<close>, so it
  is the image list of the state the handler starts from, not the list just fetched. The
  two passes meet the world one after the other (\<open>w1\<close>, \<open>w2\<close>).
\<close>

definition handleFileChange_B ::
  "'bb world_B \<Rightarrow> 'bb world_B \<Rightarrow> (string \<Rightarrow> ListObjectsV2Output settled) \<Rightarrow> string \<Rightarrow> nat
     \<Rightarrow> string option \<Rightarrow> string
     \<Rightarrow> nat \<Rightarrow> string option \<Rightarrow> (nat \<times> progress) list \<Rightarrow> unit settled
     \<Rightarrow> EventImage gallery \<Rightarrow> EventImage gallery \<times> js_error option" where
  "handleFileChange_B w1 w2 listing bucket fresh selectedEvent eventId chosen userEmail evs
       uploaded s =
     handleFileChange
       (\<lambda>s1. detectAndGroupFaces_B w2 bucket eventId (images s)
               (fetchEventImages_B w1 listing bucket fresh selectedEvent eventId s1))
       chosen userEmail evs uploaded s"

section \<open>Notions used in the statements\<close>

text \<open>
  The group id already assigned to the face a match points to, if any: what
  \<^verbatim>\<open>faceIdToGroupId\<close> holds for the matched face id. A missing or empty id or group id
  counts as none.
\<close>

definition assigned_GroupId :: "(string \<rightharpoonup> string) \<Rightarrow> 'bb FaceMatch \<Rightarrow> string option" where
  "assigned_GroupId faceIdToGroupId m =
     (case Face m of
        None \<Rightarrow> None
      | Some f \<Rightarrow>
          (case FaceId f of
             None \<Rightarrow> None
           | Some fid \<Rightarrow>
               if fid = [] then None
               else (case faceIdToGroupId fid of
                       None \<Rightarrow> None
                     | Some gid \<Rightarrow> if gid = [] then None else Some gid)))"

text \<open>
  The external tags a search by image returned that differ from the image's own key, in
  the order of the matches; none when the search failed.
\<close>

definition foreign_tags :: "EventImage \<Rightarrow> 'bb SearchFacesResponse settled \<Rightarrow> string list" where
  "foreign_tags im r =
     (case r of
        Rejected e \<Rightarrow> []
      | Fulfilled searchResponse \<Rightarrow>
          (case FaceMatches searchResponse of
             None \<Rightarrow> []
           | Some ms \<Rightarrow>
               concat (map (\<lambda>m. case Face m of
                                   None \<Rightarrow> []
                                 | Some f \<Rightarrow> filter (\<lambda>t. t \<noteq> key im) (truthy (ExternalImageId f)))
                 ms)))"

text \<open>
  The image keys the listings of the prefixes returned, in order, and the errors of the
  listings that failed, in order.
\<close>

definition listed_keys :: "(string \<Rightarrow> ListObjectsV2Output settled) \<Rightarrow> string list \<Rightarrow> string list" where
  "listed_keys listing ps =
     concat (map (\<lambda>p. case listing p of
                         Rejected e \<Rightarrow> []
                       | Fulfilled result \<Rightarrow>
                           (case Contents result of
                              None \<Rightarrow> []
                            | Some contents \<Rightarrow>
                                concat (map (\<lambda>item. filter is_image_key (truthy (Key item)))
                                  contents))) ps)"

definition rejections :: "(string \<Rightarrow> ListObjectsV2Output settled) \<Rightarrow> string list \<Rightarrow> js_error list" where
  "rejections listing ps =
     concat (map (\<lambda>p. case listing p of Rejected e \<Rightarrow> [e] | Fulfilled result \<Rightarrow> []) ps)"

text \<open>
  What holds of \<^verbatim>\<open>faceIdToGroupId\<close> and \<^verbatim>\<open>groupCount\<close> throughout phase 2: every group id
  in the mapping was made from a counter value already used.
\<close>

definition minted_so_far :: "grouping \<Rightarrow> bool" where
  "minted_so_far g =
     (\<forall>fid gid. fst g fid = Some gid \<longrightarrow> (\<exists>k. 0 < k \<and> k \<le> snd g \<and> gid = ''group_'' @ dec k))"

section \<open>Decimal rendering and the bucketing loop\<close>

lemma dec_nonempty: "dec n \<noteq> []"
  by (subst dec.simps) simp

lemma dec_small: "n < 10 \<Longrightarrow> dec n = [char_of (48 + n)]"
  by (subst dec.simps) simp

lemma dec_large: "\<not> n < 10 \<Longrightarrow> dec n = dec (n div 10) @ [char_of (48 + n mod 10)]"
  by (subst dec.simps) simp

lemma digit_inj:
  "a < 10 \<Longrightarrow> b < 10 \<Longrightarrow> (char_of (48 + a) :: char) = char_of (48 + b) \<Longrightarrow> a = (b::nat)"
proof -
  assume a: "a < 10" and b: "b < 10" and e: "(char_of (48 + a) :: char) = char_of (48 + b)"
  from e have "(of_char (char_of (48 + a) :: char) :: nat) = of_char (char_of (48 + b) :: char)"
    by simp
  then have "(48 + a) mod 256 = (48 + b) mod 256" by (simp only: of_char_of)
  with a b show ?thesis by simp
qed

text \<open>Different counters give different group ids.\<close>

lemma dec_inj: "dec n = dec m \<Longrightarrow> n = m"
proof (induction n arbitrary: m rule: dec.induct)
  case (1 n)
  show ?case
  proof (cases "n < 10")
    case True
    have m: "m < 10"
    proof (rule ccontr)
      assume "\<not> m < 10"
      then have "length (dec m) = length (dec (m div 10)) + 1" by (simp add: dec_large)
      moreover have "length (dec n) = 1" using True by (simp add: dec_small)
      moreover have "length (dec (m div 10)) \<noteq> 0" using dec_nonempty[of "m div 10"] by simp
      ultimately show False using "1.prems" by simp
    qed
    from "1.prems" have "(char_of (48 + n) :: char) = char_of (48 + m)"
      by (simp add: dec_small True m)
    with True m show ?thesis by (rule digit_inj)
  next
    case False
    have m: "\<not> m < 10"
    proof
      assume "m < 10"
      then have "length (dec m) = 1" by (simp add: dec_small)
      moreover have "length (dec n) = length (dec (n div 10)) + 1"
        using False by (simp add: dec_large)
      moreover have "length (dec (n div 10)) \<noteq> 0" using dec_nonempty[of "n div 10"] by simp
      ultimately show False using "1.prems" by simp
    qed
    from "1.prems"
    have "dec (n div 10) @ [char_of (48 + n mod 10)] = dec (m div 10) @ [char_of (48 + m mod 10)]"
      by (simp only: dec_large[OF False] dec_large[OF m])
    then have a: "dec (n div 10) = dec (m div 10)"
      and b: "(char_of (48 + n mod 10) :: char) = char_of (48 + m mod 10)"
      by simp_all
    from "1.IH"[OF False a] have "n div 10 = m div 10" .
    moreover have "n mod 10 = m mod 10" by (rule digit_inj[OF _ _ b]) simp_all
    ultimately show ?thesis by (metis div_mult_mod_eq)
  qed
qed

text \<open>No id that starts with \<^verbatim>\<open>group_\<close> names a property of \<^verbatim>\<open>Object.prototype\<close>.\<close>

lemma group_not_inherited: "''group_'' @ x \<notin> set inherited"
  by (simp add: inherited_def)

lemma push_group_Inr:
  assumes "push_group k x g = Inr g'" and "distinct (map fst g)"
  shows "distinct (map fst g')"
    and "map_of g' = (map_of g)(k \<mapsto> (case map_of g k of Some ys \<Rightarrow> ys @ [x] | None \<Rightarrow> [x]))"
proof -
  have m: "map fst (map (\<lambda>(ga, ys). if ga = k then (ga, ys @ [x]) else (ga, ys)) g) = map fst g"
    by (induction g) auto
  have n: "map_of g k = None \<Longrightarrow> k \<notin> fst ` set g"
    by (simp add: map_of_eq_None_iff)
  show "distinct (map fst g')"
  proof (cases "map_of g k")
    case None
    with assms n show ?thesis by (auto simp: push_group_def split: if_splits)
  next
    case (Some ys)
    with assms have "g' = map (\<lambda>(ga, ys). if ga = k then (ga, ys @ [x]) else (ga, ys)) g"
      by (simp add: push_group_def)
    then have "map fst g' = map fst g" using m by simp
    with assms show ?thesis by simp
  qed
  have u: "\<And>k'. map_of (map (\<lambda>(ga, ys). if ga = k then (ga, ys @ [x]) else (ga, ys)) g) k' =
      (if k' = k then map_option (\<lambda>ys. ys @ [x]) (map_of g k) else map_of g k')"
    by (induction g) auto
  show "map_of g' = (map_of g)(k \<mapsto> (case map_of g k of Some ys \<Rightarrow> ys @ [x] | None \<Rightarrow> [x]))"
  proof (cases "map_of g k")
    case None
    with assms show ?thesis
      by (auto simp: push_group_def fun_eq_iff map_add_def split: if_splits option.splits)
  next
    case (Some ys)
    with assms have "g' = map (\<lambda>(ga, ys). if ga = k then (ga, ys @ [x]) else (ga, ys)) g"
      by (simp add: push_group_def)
    with Some u show ?thesis by (simp add: fun_eq_iff)
  qed
qed

lemma push_group_total: "k \<notin> set inherited \<Longrightarrow> \<exists>g'. push_group k x g = Inr g'"
  by (simp add: push_group_def split: option.splits)

text \<open>
  What the loop leaves in every bucket: the elements with that group id, in list order,
  after whatever the bucket held before.
\<close>

lemma bucket_by_Inr:
  "bucket_by f xs g0 = Inr g \<Longrightarrow> distinct (map fst g0) \<Longrightarrow>
   distinct (map fst g) \<and>
   (\<forall>k. map_of g k =
      (case map_of g0 k of
         Some ys \<Rightarrow> Some (ys @ filter (\<lambda>x. f x = k) xs)
       | None \<Rightarrow> if filter (\<lambda>x. f x = k) xs = [] then None else Some (filter (\<lambda>x. f x = k) xs)))"
proof (induction xs arbitrary: g0)
  case Nil
  then show ?case by (auto split: option.splits)
next
  case (Cons x xs)
  from Cons.prems(1) obtain g1
    where p: "push_group (f x) x g0 = Inr g1" and b: "bucket_by f xs g1 = Inr g"
    by (auto split: sum.splits)
  note d1 = push_group_Inr(1)[OF p Cons.prems(2)]
  note m1 = push_group_Inr(2)[OF p Cons.prems(2)]
  from Cons.IH[OF b d1] have d: "distinct (map fst g)" and
    m: "\<And>k. map_of g k =
      (case map_of g1 k of
         Some ys \<Rightarrow> Some (ys @ filter (\<lambda>x. f x = k) xs)
       | None \<Rightarrow> if filter (\<lambda>x. f x = k) xs = [] then None else Some (filter (\<lambda>x. f x = k) xs))"
    by auto
  show ?case
  proof (intro conjI allI)
    show "distinct (map fst g)" by (rule d)
  next
    fix k
    show "map_of g k =
      (case map_of g0 k of
         Some ys \<Rightarrow> Some (ys @ filter (\<lambda>x. f x = k) (x # xs))
       | None \<Rightarrow> if filter (\<lambda>x. f x = k) (x # xs) = [] then None
                 else Some (filter (\<lambda>x. f x = k) (x # xs)))"
      by (simp add: m m1 split: option.splits)
  qed
qed

lemma bucket_by_total:
  "\<forall>x \<in> set xs. f x \<notin> set inherited \<Longrightarrow> \<exists>g. bucket_by f xs g0 = Inr g"
proof (induction xs arbitrary: g0)
  case Nil
  then show ?case by simp
next
  case (Cons x xs)
  then obtain g1 where "push_group (f x) x g0 = Inr g1"
    using push_group_total[of "f x" x g0] by auto
  with Cons show ?case by simp
qed

section \<open>Deleting an image\<close>

lemma retract_A_sound:
  "(g, rs) \<in> set (retract_A im prev) \<Longrightarrow> rs \<noteq> [] \<and> (\<forall>fr \<in> set rs. key (img fr) \<noteq> key im)"
  unfolding retract_A_def by auto

lemma retract_B_sound:
  "(g, ms) \<in> set (retract_B im prev) \<Longrightarrow> \<forall>i \<in> set ms. key i \<noteq> key im"
  unfolding retract_B_def by auto

lemma retract_B_keys: "map fst (retract_B im prev) = map fst prev"
  unfolding retract_B_def by (induction prev) auto

text \<open>
  After a delete whose storage call succeeded, strategy A has no trace of the image left:
  not in the image list, not in any group, not in the face records, and no group is empty.
\<close>

lemma handleDelete_A_retracts:
  "(\<forall>i \<in> set (images (handleDelete_A (Fulfilled ()) im s)). key i \<noteq> key im)
   \<and> (\<forall>(g, rs) \<in> set (faceGroups (handleDelete_A (Fulfilled ()) im s)).
         rs \<noteq> [] \<and> (\<forall>fr \<in> set rs. key (img fr) \<noteq> key im))
   \<and> (\<forall>fr \<in> set (allFaceRecords (handleDelete_A (Fulfilled ()) im s)). key (img fr) \<noteq> key im)"
  using retract_A_sound[of _ _ im "faceGroups s"]
  by (auto simp: handleDelete_A_def handleDelete_settled_A_def handleDelete_begin_def
      handleDelete_finally_def)

text \<open>Strategy B removes the image from the image list and from every group as well.\<close>

lemma handleDelete_B_retracts:
  "(\<forall>i \<in> set (images (handleDelete_B (Fulfilled ()) im s)). key i \<noteq> key im)
   \<and> (\<forall>(g, ms) \<in> set (faceGroups (handleDelete_B (Fulfilled ()) im s)).
         \<forall>i \<in> set ms. key i \<noteq> key im)"
  using retract_B_sound[of _ _ im "faceGroups s"]
  by (auto simp: handleDelete_B_def handleDelete_settled_B_def handleDelete_begin_def
      handleDelete_finally_def)

text \<open>
  Claim C3. Deleting an image removes it from the image set and from the member list of
  every group, and every group left without members is removed from the partition.
  Strategy A does both (\<open>handleDelete_A_retracts\<close>). Strategy B removes the image but has
  no loop that drops empty groups: deleting the only member of a group leaves the group
  in the partition with an empty member list.
\<close>

theorem handleDelete_B_keeps_empty_group:
  "faceGroups (handleDelete_B (Fulfilled ())
      \<lparr>oid = 0, url = ''https://b.s3.amazonaws.com/a.jpg'', key = ''a.jpg''\<rparr>
      \<lparr>deleting = [],
       images = [\<lparr>oid = 0, url = ''https://b.s3.amazonaws.com/a.jpg'', key = ''a.jpg''\<rparr>],
       faceGroups =
         [(''g1'', [\<lparr>oid = 0, url = ''https://b.s3.amazonaws.com/a.jpg'', key = ''a.jpg''\<rparr>])],
       error = None, loading = False, uploading = False, uploadProgress = 0\<rparr>)
   = [(''g1'', [])]"
  by (simp add: handleDelete_B_def handleDelete_begin_def handleDelete_settled_B_def
      handleDelete_finally_def retract_B_def)

text \<open>
  Claim C4, as stated: the removal from the image set and the groups is applied when the
  request is made, whether the storage call succeeds or fails. It is not: after a
  rejected \<^verbatim>\<open>DeleteObjectCommand\<close> the image is still in the image list (and in its group).
\<close>

theorem optimistic_removal_counterexample:
  "images (handleDelete_B (Rejected (ServiceException ''AccessDenied''))
      \<lparr>oid = 0, url = ''https://b.s3.amazonaws.com/a.jpg'', key = ''a.jpg''\<rparr>
      \<lparr>deleting = [],
       images = [\<lparr>oid = 0, url = ''https://b.s3.amazonaws.com/a.jpg'', key = ''a.jpg''\<rparr>],
       faceGroups =
         [(''g1'', [\<lparr>oid = 0, url = ''https://b.s3.amazonaws.com/a.jpg'', key = ''a.jpg''\<rparr>])],
       error = None, loading = False, uploading = False, uploadProgress = 0\<rparr>)
   = [\<lparr>oid = 0, url = ''https://b.s3.amazonaws.com/a.jpg'', key = ''a.jpg''\<rparr>]"
  by (simp add: handleDelete_B_def handleDelete_begin_def handleDelete_settled_B_def
      handleDelete_finally_def)

text \<open>
  Claim C4, amended. Making the request removes nothing. The removal is applied when the
  storage call has succeeded; when the call fails, the image list, the groups and (in
  strategy A) the face records are left as they are.
\<close>

theorem removal_follows_remote_outcome:
  "images (handleDelete_begin im sA) = images sA
   \<and> faceGroups (handleDelete_begin im sA) = faceGroups sA
   \<and> images (handleDelete_settled_A (Rejected e) im sA) = images sA
   \<and> faceGroups (handleDelete_settled_A (Rejected e) im sA) = faceGroups sA
   \<and> allFaceRecords (handleDelete_settled_A (Rejected e) im sA) = allFaceRecords sA
   \<and> images (handleDelete_settled_B (Rejected e) im sB) = images sB
   \<and> faceGroups (handleDelete_settled_B (Rejected e) im sB) = faceGroups sB
   \<and> images (handleDelete_settled_A (Fulfilled ()) im sA)
       = filter (\<lambda>i. key i \<noteq> key im) (images sA)
   \<and> faceGroups (handleDelete_settled_A (Fulfilled ()) im sA) = retract_A im (faceGroups sA)
   \<and> allFaceRecords (handleDelete_settled_A (Fulfilled ()) im sA)
       = filter (\<lambda>fr. key (img fr) \<noteq> key im) (allFaceRecords sA)
   \<and> images (handleDelete_settled_B (Fulfilled ()) im sB)
       = filter (\<lambda>i. key i \<noteq> key im) (images sB)
   \<and> faceGroups (handleDelete_settled_B (Fulfilled ()) im sB) = retract_B im (faceGroups sB)"
  by (simp add: handleDelete_begin_def handleDelete_settled_A_def handleDelete_settled_B_def
      handleDelete_finally_def)

text \<open>
  Claim C10. The key of the image is in \<^verbatim>\<open>deleting\<close> once the operation has started, and
  it is not in \<^verbatim>\<open>deleting\<close> once the operation has finished, whether the storage call
  succeeded or failed, and whatever happened to the state while the call was pending.
\<close>

theorem deleting_mark_is_cleared:
  "key im \<in> set (deleting (handleDelete_begin im s))
   \<and> key im \<notin> set (deleting (handleDelete_settled_A (Fulfilled ()) im sA))
   \<and> key im \<notin> set (deleting (handleDelete_settled_A (Rejected e) im sA))
   \<and> key im \<notin> set (deleting (handleDelete_settled_B (Fulfilled ()) im sB))
   \<and> key im \<notin> set (deleting (handleDelete_settled_B (Rejected e) im sB))
   \<and> key im \<notin> set (deleting (handleDelete_A r im sA))
   \<and> key im \<notin> set (deleting (handleDelete_B r im sB))"
  by (simp add: handleDelete_begin_def handleDelete_settled_A_def handleDelete_settled_B_def
      handleDelete_A_def handleDelete_B_def handleDelete_finally_def)

section \<open>Upload progress\<close>

lemma percentage_eq:
  "percentage p =
     int ((200 * (case loaded p of None \<Rightarrow> 0 | Some l \<Rightarrow> l)
           + (case total_bytes p of None \<Rightarrow> 1 | Some t \<Rightarrow> if t = 0 then 1 else t))
          div (2 * (case total_bytes p of None \<Rightarrow> 1 | Some t \<Rightarrow> if t = 0 then 1 else t)))"
proof -
  define l where "l = (case loaded p of None \<Rightarrow> 0 | Some l \<Rightarrow> l)"
  define t where "t = (case total_bytes p of None \<Rightarrow> 1 | Some t \<Rightarrow> if t = 0 then 1 else t)"
  have t: "0 < t" by (simp add: t_def split: option.splits)
  have "(of_nat l * 100 / of_nat t + 1 / 2 :: rat) = of_nat (200 * l + t) / of_nat (2 * t)"
    using t by (simp add: field_simps)
  then have "round (of_nat l * 100 / of_nat t :: rat)
      = \<lfloor>of_nat (200 * l + t) / of_nat (2 * t) :: rat\<rfloor>"
    by (simp only: round_def)
  also have "\<dots> = int ((200 * l + t) div (2 * t))"
    by (rule floor_divide_of_nat_eq)
  finally show ?thesis by (simp add: percentage_def l_def t_def)
qed

lemma percentage_Some:
  "0 < t \<Longrightarrow> percentage \<lparr>loaded = Some l, total_bytes = Some t\<rparr> = int ((200 * l + t) div (2 * t))"
  by (simp add: percentage_eq)

lemma percentage_nonneg: "0 \<le> percentage p"
  by (simp add: percentage_eq)

lemma percentage_le_100:
  assumes "loaded p = Some l" "total_bytes p = Some t" "l \<le> t"
  shows "percentage p \<le> 100"
proof (cases "t = 0")
  case True
  with assms show ?thesis by (simp add: percentage_eq)
next
  case False
  then have t: "0 < t" by simp
  have "200 * l + t < 2 * t * 101" using assms t by simp
  then have "(200 * l + t) div (2 * t) < 101" using t by (simp add: less_mult_imp_div_less)
  then show ?thesis using assms t by (simp add: percentage_eq)
qed

lemma percentage_undefined_loaded: "loaded p = None \<Longrightarrow> percentage p = 0"
  by (simp add: percentage_eq split: option.splits)

lemma percentage_mono_loaded:
  assumes "total_bytes q = total_bytes p"
    and "(case loaded p of None \<Rightarrow> 0 | Some l \<Rightarrow> l) \<le> (case loaded q of None \<Rightarrow> 0 | Some l \<Rightarrow> l)"
  shows "percentage p \<le> percentage q"
proof -
  define t where "t = (case total_bytes p of None \<Rightarrow> 1 | Some t \<Rightarrow> if t = 0 then 1 else t)"
  have "(200 * (case loaded p of None \<Rightarrow> 0 | Some l \<Rightarrow> l) + t) div (2 * t)
      \<le> (200 * (case loaded q of None \<Rightarrow> 0 | Some l \<Rightarrow> l) + t) div (2 * t)"
    using assms(2) by (intro div_le_mono) simp
  then show ?thesis unfolding percentage_eq assms(1) t_def by simp
qed

lemma upload_trace_emitted:
  "map uploadProgress (upload_trace evs s) = map (\<lambda>ev. percentage (snd ev)) evs"
  by (induction evs arbitrary: s) (simp_all add: httpUploadProgress_def)

lemma upload_trace_nth:
  assumes "i < length evs"
  shows "uploadProgress (upload_trace evs s ! i) = percentage (snd (evs ! i))"
proof -
  have l: "length (upload_trace evs s) = length evs"
    using arg_cong[OF upload_trace_emitted, of length evs s] by simp
  have "map uploadProgress (upload_trace evs s) ! i = map (\<lambda>ev. percentage (snd ev)) evs ! i"
    by (simp only: upload_trace_emitted)
  then show ?thesis using assms l by simp
qed

text \<open>
  Once the handler has run its \<^verbatim>\<open>finally\<close> block, the progress is back at 0. In strategy A
  what is published after an upload is what \<^verbatim>\<open>fetchEventImages\<close> left.
\<close>

lemma handleFileChange_resets:
  assumes "chosen \<noteq> 0" and "truthy userEmail \<noteq> []"
  shows "uploadProgress (fst (handleFileChange refresh chosen userEmail evs uploaded s)) = 0
     \<and> \<not> uploading (fst (handleFileChange refresh chosen userEmail evs uploaded s))"
  using assms by (simp add: handleFileChange_def handleFileChange_finally_def Let_def)

lemma handleFileChange_A_refresh:
  assumes "chosen \<noteq> 0" and "truthy userEmail \<noteq> []"
  shows "handleFileChange_A w listing bucket fresh selectedEvent eventId chosen userEmail evs
           (Fulfilled ()) s
     = (handleFileChange_finally
          (fetchEventImages_A w listing bucket fresh selectedEvent eventId
             (last (s\<lparr>uploading := True\<rparr> # upload_trace evs (s\<lparr>uploading := True\<rparr>)))),
        None)"
  using assms by (simp add: handleFileChange_A_def handleFileChange_def Let_def)

text \<open>
  Claim C9, as stated: within one upload batch the emitted percentage never decreases.
  Two files of 10 MiB and 20 MiB upload together in parts of 5 MiB; the first part of the
  first file reports 50, then the first part of the second file reports 25.
\<close>

theorem upload_progress_counterexample:
  "\<not> sorted (map uploadProgress (upload_trace
      [(0, \<lparr>loaded = Some 5242880, total_bytes = Some 10485760\<rparr>),
       (1, \<lparr>loaded = Some 5242880, total_bytes = Some 20971520\<rparr>)]
      \<lparr>deleting = [], images = [], faceGroups = ([] :: (string \<times> EventImage list) list),
       error = None, loading = False, uploading = True, uploadProgress = 0\<rparr>))"
  by (simp add: httpUploadProgress_def percentage_Some)

text \<open>
  Claim C9, amended. Every emitted value is the rounded percentage of the one upload that
  raised the event, and it is never negative. The value an event emits is at most 100
  whenever the loaded count of that event does not exceed its total (a total of 0, as an
  empty file reports, included), and it is 0 when the event carries no loaded count. For
  each file taken alone, the values emitted for it never decrease provided that, among the
  events of that file, the total stays the same and the loaded count (an absent one counting
  as 0, as the handler reads it) never decreases; nothing is required of the events of the
  other files. In particular a batch of a single file never shows a decrease. Nothing is
  said across different files of a batch.
\<close>

theorem upload_progress_per_file:
  "map uploadProgress (upload_trace evs s) = map (\<lambda>ev. percentage (snd ev)) evs
   \<and> (\<forall>i < length evs. 0 \<le> uploadProgress (upload_trace evs s ! i))
   \<and> (\<forall>i < length evs. \<forall>l t. loaded (snd (evs ! i)) = Some l \<longrightarrow> total_bytes (snd (evs ! i)) = Some t
          \<longrightarrow> l \<le> t \<longrightarrow> uploadProgress (upload_trace evs s ! i) \<le> 100)
   \<and> (\<forall>i < length evs. loaded (snd (evs ! i)) = None \<longrightarrow> uploadProgress (upload_trace evs s ! i) = 0)
   \<and> (\<forall>f. sorted_wrt (\<lambda>p q. total_bytes q = total_bytes p
                  \<and> (case loaded p of None \<Rightarrow> 0 | Some l \<Rightarrow> l)
                      \<le> (case loaded q of None \<Rightarrow> 0 | Some l \<Rightarrow> l))
             (map snd (filter (\<lambda>ev. fst ev = f) evs))
         \<longrightarrow> sorted (map (\<lambda>ev. percentage (snd ev)) (filter (\<lambda>ev. fst ev = f) evs)))
   \<and> ((\<forall>ev \<in> set evs. fst ev = f0)
        \<longrightarrow> sorted_wrt (\<lambda>p q. total_bytes q = total_bytes p
                  \<and> (case loaded p of None \<Rightarrow> 0 | Some l \<Rightarrow> l)
                      \<le> (case loaded q of None \<Rightarrow> 0 | Some l \<Rightarrow> l))
             (map snd evs)
        \<longrightarrow> sorted (map uploadProgress (upload_trace evs s)))"
proof -
  let ?R = "\<lambda>p q. total_bytes q = total_bytes p
                  \<and> (case loaded p of None \<Rightarrow> 0 | Some l \<Rightarrow> l)
                      \<le> (case loaded q of None \<Rightarrow> 0 | Some l \<Rightarrow> (l::nat))"
  have e: "map uploadProgress (upload_trace evs s) = map (\<lambda>ev. percentage (snd ev)) evs"
    by (rule upload_trace_emitted)
  have n: "\<forall>i < length evs. 0 \<le> uploadProgress (upload_trace evs s ! i)"
    by (simp add: upload_trace_nth percentage_nonneg)
  have r: "\<forall>i < length evs. \<forall>l t. loaded (snd (evs ! i)) = Some l \<longrightarrow> total_bytes (snd (evs ! i)) = Some t
          \<longrightarrow> l \<le> t \<longrightarrow> uploadProgress (upload_trace evs s ! i) \<le> 100"
  proof (intro allI impI)
    fix i l t
    assume i: "i < length evs" and h: "loaded (snd (evs ! i)) = Some l"
      "total_bytes (snd (evs ! i)) = Some t" "l \<le> t"
    from h have "percentage (snd (evs ! i)) \<le> 100" by (rule percentage_le_100)
    with i show "uploadProgress (upload_trace evs s ! i) \<le> 100" by (simp add: upload_trace_nth)
  qed
  have u: "\<forall>i < length evs. loaded (snd (evs ! i)) = None \<longrightarrow> uploadProgress (upload_trace evs s ! i) = 0"
    by (simp add: upload_trace_nth percentage_undefined_loaded)
  have m: "sorted_wrt ?R (map snd xs) \<Longrightarrow> sorted (map (\<lambda>ev. percentage (snd ev)) xs)"
    for xs :: "(nat \<times> progress) list"
  proof -
    assume "sorted_wrt ?R (map snd xs)"
    then have "sorted_wrt (\<lambda>p q. percentage p \<le> percentage q) (map snd xs)"
      by (rule sorted_wrt_mono_rel[rotated]) (auto intro: percentage_mono_loaded)
    then show ?thesis by (simp add: sorted_wrt_map sorted_map)
  qed
  have f: "\<forall>f. sorted_wrt ?R (map snd (filter (\<lambda>ev. fst ev = f) evs))
         \<longrightarrow> sorted (map (\<lambda>ev. percentage (snd ev)) (filter (\<lambda>ev. fst ev = f) evs))"
    by (intro allI impI) (rule m)
  have o: "(\<forall>ev \<in> set evs. fst ev = f0) \<longrightarrow> sorted_wrt ?R (map snd evs)
        \<longrightarrow> sorted (map uploadProgress (upload_trace evs s))"
    unfolding e by (intro impI) (rule m)
  from e n r u f o show ?thesis by (intro conjI)
qed

theorem upload_progress_per_file_witness:
  "map uploadProgress (upload_trace
      [(0, \<lparr>loaded = Some 5242880, total_bytes = Some 10485760\<rparr>),
       (1, \<lparr>loaded = Some 5242880, total_bytes = Some 20971520\<rparr>),
       (2, \<lparr>loaded = Some 0, total_bytes = Some 0\<rparr>),
       (0, \<lparr>loaded = Some 10485760, total_bytes = Some 10485760\<rparr>)]
      \<lparr>deleting = [], images = [], faceGroups = ([] :: (string \<times> EventImage list) list),
       error = None, loading = False, uploading = True, uploadProgress = 0\<rparr>) = [50, 25, 0, 100]
   \<and> sorted (map (\<lambda>ev. percentage (snd ev)) (filter (\<lambda>ev. fst ev = 0)
        [(0::nat, \<lparr>loaded = Some 5242880, total_bytes = Some 10485760\<rparr>),
         (1, \<lparr>loaded = Some 5242880, total_bytes = Some 20971520\<rparr>),
         (2, \<lparr>loaded = Some 0, total_bytes = Some 0\<rparr>),
         (0, \<lparr>loaded = Some 10485760, total_bytes = Some 10485760\<rparr>)]))
   \<and> uploadProgress (upload_trace
      [(0, \<lparr>loaded = Some 5242880, total_bytes = Some 10485760\<rparr>),
       (1, \<lparr>loaded = Some 5242880, total_bytes = Some 20971520\<rparr>),
       (2, \<lparr>loaded = Some 0, total_bytes = Some 0\<rparr>),
       (0, \<lparr>loaded = Some 10485760, total_bytes = Some 10485760\<rparr>)]
      \<lparr>deleting = [], images = [], faceGroups = ([] :: (string \<times> EventImage list) list),
       error = None, loading = False, uploading = True, uploadProgress = 0\<rparr> ! 2) \<le> 100
   \<and> sorted (map uploadProgress (upload_trace
      [(7, \<lparr>loaded = None, total_bytes = Some 10485760\<rparr>),
       (7, \<lparr>loaded = Some 5242880, total_bytes = Some 10485760\<rparr>),
       (7, \<lparr>loaded = Some 10485760, total_bytes = Some 10485760\<rparr>)]
      \<lparr>deleting = [], images = [], faceGroups = ([] :: (string \<times> EventImage list) list),
       error = None, loading = False, uploading = True, uploadProgress = 0\<rparr>))"
proof -
  let ?evs = "[(0::nat, \<lparr>loaded = Some 5242880, total_bytes = Some 10485760\<rparr>),
         (1, \<lparr>loaded = Some 5242880, total_bytes = Some 20971520\<rparr>),
         (2, \<lparr>loaded = Some 0, total_bytes = Some 0\<rparr>),
         (0, \<lparr>loaded = Some 10485760, total_bytes = Some 10485760\<rparr>)]"
  let ?one = "[(7::nat, \<lparr>loaded = None, total_bytes = Some 10485760\<rparr>),
       (7, \<lparr>loaded = Some 5242880, total_bytes = Some 10485760\<rparr>),
       (7, \<lparr>loaded = Some 10485760, total_bytes = Some 10485760\<rparr>)]"
  let ?s = "\<lparr>deleting = [], images = [], faceGroups = ([] :: (string \<times> EventImage list) list),
       error = None, loading = False, uploading = True, uploadProgress = 0\<rparr>"
  note t = upload_progress_per_file[of ?evs ?s 0]
  note t1 = upload_progress_per_file[of ?one ?s 7]
  have v: "map (\<lambda>ev. percentage (snd ev)) ?evs = [50, 25, 0, 100]"
    by (simp add: percentage_Some percentage_eq)
  have h: "sorted_wrt (\<lambda>p q. total_bytes q = total_bytes p
                  \<and> (case loaded p of None \<Rightarrow> 0 | Some l \<Rightarrow> l)
                      \<le> (case loaded q of None \<Rightarrow> 0 | Some l \<Rightarrow> l))
             (map snd (filter (\<lambda>ev. fst ev = 0) ?evs))"
    by simp
  have c1: "map uploadProgress (upload_trace ?evs ?s) = [50, 25, 0, 100]"
    using t[THEN conjunct1] v by (simp only:)
  have c2: "sorted (map (\<lambda>ev. percentage (snd ev)) (filter (\<lambda>ev. fst ev = 0) ?evs))"
    using t[THEN conjunct2, THEN conjunct2, THEN conjunct2, THEN conjunct2, THEN conjunct1,
        rule_format, OF h] .
  have i2: "2 < length ?evs" by simp
  have l2: "loaded (snd (?evs ! 2)) = Some 0" and t2: "total_bytes (snd (?evs ! 2)) = Some 0"
    by simp_all
  have c3: "uploadProgress (upload_trace ?evs ?s ! 2) \<le> 100"
    using t[THEN conjunct2, THEN conjunct2, THEN conjunct1, rule_format, OF i2 l2 t2] by simp
  have o1: "\<forall>ev \<in> set ?one. fst ev = 7" by simp
  have o2: "sorted_wrt (\<lambda>p q. total_bytes q = total_bytes p
                  \<and> (case loaded p of None \<Rightarrow> 0 | Some l \<Rightarrow> l)
                      \<le> (case loaded q of None \<Rightarrow> 0 | Some l \<Rightarrow> l))
             (map snd ?one)"
    by simp
  have c4: "sorted (map uploadProgress (upload_trace ?one ?s))"
    using t1[THEN conjunct2, THEN conjunct2, THEN conjunct2, THEN conjunct2, THEN conjunct2,
        THEN mp, OF o1, THEN mp, OF o2] .
  from c1 c2 c3 c4 show ?thesis by (intro conjI)
qed

section \<open>Strategy B: the group id of an image\<close>

lemma digit_chars:
  "char_of (48::nat) = CHR ''0''" "char_of (49::nat) = CHR ''1''" "char_of (50::nat) = CHR ''2''"
  "char_of (51::nat) = CHR ''3''" "char_of (52::nat) = CHR ''4''" "char_of (53::nat) = CHR ''5''"
  "char_of (54::nat) = CHR ''6''" "char_of (55::nat) = CHR ''7''" "char_of (56::nat) = CHR ''8''"
  "char_of (57::nat) = CHR ''9''"
  by code_simp+

lemma truthy_set: "t \<in> set (truthy x) \<longleftrightarrow> x = Some t \<and> t \<noteq> []"
  by (cases x) auto

lemma foreign_tags_sound: "t \<in> set (foreign_tags im r) \<Longrightarrow> t \<noteq> [] \<and> t \<noteq> key im"
  by (auto simp: foreign_tags_def truthy_set split: settled.splits option.splits)

lemma find_foreign:
  "(case find (\<lambda>m. case Face m of
                      None \<Rightarrow> False
                    | Some f \<Rightarrow> truthy (ExternalImageId f) \<noteq> [] \<and> ExternalImageId f \<noteq> Some k) ms of
      None \<Rightarrow> []
    | Some match \<Rightarrow>
        (case Face match of
           None \<Rightarrow> []
         | Some f \<Rightarrow> (case ExternalImageId f of None \<Rightarrow> [] | Some t \<Rightarrow> t)))
   = (case concat (map (\<lambda>m. case Face m of
                               None \<Rightarrow> []
                             | Some f \<Rightarrow> filter (\<lambda>t. t \<noteq> k) (truthy (ExternalImageId f))) ms) of
        [] \<Rightarrow> []
      | t # _ \<Rightarrow> t)"
proof (induction ms)
  case Nil
  then show ?case by simp
next
  case (Cons m ms)
  show ?case
  proof (cases "Face m")
    case None
    with Cons show ?thesis by simp
  next
    case (Some f)
    show ?thesis
    proof (cases "ExternalImageId f")
      case None
      with Some Cons show ?thesis by simp
    next
      case (Some t)
      with \<open>Face m = Some f\<close> Cons show ?thesis by (cases "t = []") auto
    qed
  qed
qed

lemma searched_groupId_eq:
  "searched_groupId im r = (case foreign_tags im r of [] \<Rightarrow> [] | t # _ \<Rightarrow> t)"
proof (cases r)
  case (Rejected e)
  then show ?thesis by (simp add: searched_groupId_def foreign_tags_def)
next
  case (Fulfilled resp)
  show ?thesis
  proof (cases "FaceMatches resp")
    case None
    with Fulfilled show ?thesis by (simp add: searched_groupId_def foreign_tags_def)
  next
    case (Some ms)
    show ?thesis
    proof (cases "ms = []")
      case True
      with Some Fulfilled show ?thesis by (simp add: searched_groupId_def foreign_tags_def)
    next
      case False
      with Some Fulfilled show ?thesis
        by (simp add: searched_groupId_def foreign_tags_def find_foreign)
    qed
  qed
qed

lemma resolve_groupId_eq:
  "resolve_groupId w i im =
     (case foreign_tags im (matched w i) of
        t # _ \<Rightarrow> t
      | [] \<Rightarrow> ''group_'' @ dec (fst (stamped w i)) @ ''_'' @ snd (stamped w i))"
proof (cases "foreign_tags im (matched w i)")
  case Nil
  then show ?thesis by (simp add: resolve_groupId_def searched_groupId_eq mint_def)
next
  case (Cons t ts)
  then have "t \<noteq> []" using foreign_tags_sound[of t im "matched w i"] by simp
  with Cons show ?thesis by (simp add: resolve_groupId_def searched_groupId_eq)
qed

lemma group_image_eq:
  "group_image w bucket eventId i im =
     ((key im, resolve_groupId w i im),
      [SearchFacesByImageCommand eventId bucket (key im) 80 10,
       IndexFacesCommand eventId bucket (key im) (resolve_groupId w i im)])"
  by (simp add: group_image_def Let_def split: settled.splits)

text \<open>
  Claim C7. In strategy B the group id of an image is the external tag of the first match
  that has a tag different from the image's own key; when no match has one (also when the
  search failed or returned nothing) it is minted as \<^verbatim>\<open>group_<timestamp>_<suffix>\<close>. The
  pass returns that id for the image, and the \<^verbatim>\<open>IndexFacesCommand\<close> that tags the
  image with that id is sent for every image, with or without a match.
\<close>

theorem strategy_B_group_id:
  "resolve_groupId w i im =
     (case foreign_tags im (matched w i) of
        t # _ \<Rightarrow> t
      | [] \<Rightarrow> ''group_'' @ dec (fst (stamped w i)) @ ''_'' @ snd (stamped w i))
   \<and> results_B w bucket eventId ims
       = map (\<lambda>(i, im). (key im, resolve_groupId w i im)) (enumerate 0 ims)
   \<and> (\<forall>(i, im) \<in> set (enumerate 0 ims).
         IndexFacesCommand eventId bucket (key im) (resolve_groupId w i im)
           \<in> set (sent_B w bucket eventId ims))"
proof (intro conjI)
  show "resolve_groupId w i im =
     (case foreign_tags im (matched w i) of
        t # _ \<Rightarrow> t
      | [] \<Rightarrow> ''group_'' @ dec (fst (stamped w i)) @ ''_'' @ snd (stamped w i))"
    by (rule resolve_groupId_eq)
  show "results_B w bucket eventId ims
       = map (\<lambda>(i, im). (key im, resolve_groupId w i im)) (enumerate 0 ims)"
    by (simp add: results_B_def group_image_eq case_prod_unfold)
  show "\<forall>(i, im) \<in> set (enumerate 0 ims).
         IndexFacesCommand eventId bucket (key im) (resolve_groupId w i im)
           \<in> set (sent_B w bucket eventId ims)"
    by (force simp: sent_B_def group_image_eq)
qed

theorem strategy_B_group_id_witness:
  "resolve_groupId
     \<lparr>listed = Fulfilled (Some [''ev'']), created = Fulfilled (),
      matched = (\<lambda>i. if i = 0 then Rejected (ServiceException ''Throttled'')
                 else Fulfilled \<lparr>FaceMatches = Some
                   [\<lparr>Face = Some \<lparr>FaceId = Some ''f0'', BoundingBox = None :: unit option,
                                  ExternalImageId = Some ''b.png''\<rparr>\<rparr>,
                    \<lparr>Face = Some \<lparr>FaceId = Some ''f1'', BoundingBox = None,
                                  ExternalImageId = Some ''group_7_abc''\<rparr>\<rparr>]\<rparr>),
      stamped = (\<lambda>i. (1700000000000 + i, ''x1y2z3'')),
      tagged = (\<lambda>i. Rejected (ServiceException ''Throttled''))\<rparr>
     1 \<lparr>oid = 1, url = ''https://bkt.s3.amazonaws.com/b.png'', key = ''b.png''\<rparr>
   = ''group_7_abc''
   \<and> IndexFacesCommand ''ev'' ''bkt'' ''a.jpg'' ''group_1700000000000_x1y2z3''
       \<in> set (sent_B
     \<lparr>listed = Fulfilled (Some [''ev'']), created = Fulfilled (),
      matched = (\<lambda>i. if i = 0 then Rejected (ServiceException ''Throttled'')
                 else Fulfilled \<lparr>FaceMatches = Some
                   [\<lparr>Face = Some \<lparr>FaceId = Some ''f0'', BoundingBox = None :: unit option,
                                  ExternalImageId = Some ''b.png''\<rparr>\<rparr>,
                    \<lparr>Face = Some \<lparr>FaceId = Some ''f1'', BoundingBox = None,
                                  ExternalImageId = Some ''group_7_abc''\<rparr>\<rparr>]\<rparr>),
      stamped = (\<lambda>i. (1700000000000 + i, ''x1y2z3'')),
      tagged = (\<lambda>i. Rejected (ServiceException ''Throttled''))\<rparr>
     ''bkt'' ''ev''
     [\<lparr>oid = 0, url = ''https://bkt.s3.amazonaws.com/a.jpg'', key = ''a.jpg''\<rparr>,
      \<lparr>oid = 1, url = ''https://bkt.s3.amazonaws.com/b.png'', key = ''b.png''\<rparr>])"
proof -
  let ?w = "\<lparr>listed = Fulfilled (Some [''ev'']), created = Fulfilled (),
      matched = (\<lambda>i. if i = 0 then Rejected (ServiceException ''Throttled'')
                 else Fulfilled \<lparr>FaceMatches = Some
                   [\<lparr>Face = Some \<lparr>FaceId = Some ''f0'', BoundingBox = None :: unit option,
                                  ExternalImageId = Some ''b.png''\<rparr>\<rparr>,
                    \<lparr>Face = Some \<lparr>FaceId = Some ''f1'', BoundingBox = None,
                                  ExternalImageId = Some ''group_7_abc''\<rparr>\<rparr>]\<rparr>),
      stamped = (\<lambda>i. (1700000000000 + i, ''x1y2z3'')),
      tagged = (\<lambda>i. Rejected (ServiceException ''Throttled''))\<rparr>"
  let ?a = "\<lparr>oid = 0, url = ''https://bkt.s3.amazonaws.com/a.jpg'', key = ''a.jpg''\<rparr>"
  let ?b = "\<lparr>oid = 1, url = ''https://bkt.s3.amazonaws.com/b.png'', key = ''b.png''\<rparr>"
  note t = strategy_B_group_id[of ?w 1 ?b "''bkt''" "''ev''" "[?a, ?b]"]
  note t0 = strategy_B_group_id[of ?w 0 ?a "''bkt''" "''ev''" "[?a, ?b]"]
  have r1: "resolve_groupId ?w 1 ?b = ''group_7_abc''"
    using t by (simp add: foreign_tags_def)
  have r0: "resolve_groupId ?w 0 ?a = ''group_1700000000000_x1y2z3''"
    using t0 by (simp add: foreign_tags_def dec.simps digit_chars)
  have "(0, ?a) \<in> set (enumerate 0 [?a, ?b])" by simp
  with t have "IndexFacesCommand ''ev'' ''bkt'' (key ?a) (resolve_groupId ?w 0 ?a)
      \<in> set (sent_B ?w ''bkt'' ''ev'' [?a, ?b])" by blast
  with r0 r1 show ?thesis by simp
qed

section \<open>Strategy B: the published partition\<close>

lemma push_group_mset:
  assumes "push_group k x g = Inr g'" and "distinct (map fst g)"
  shows "mset (concat (map snd g')) = mset (concat (map snd g)) + {#x#}"
proof (cases "map_of g k")
  case None
  with assms show ?thesis by (auto simp: push_group_def split: if_splits)
next
  case (Some ys)
  have u: "distinct (map fst g) \<Longrightarrow> map_of g k = Some ys \<Longrightarrow>
      mset (concat (map snd (map (\<lambda>(ga, ys). if ga = k then (ga, ys @ [x]) else (ga, ys)) g)))
        = mset (concat (map snd g)) + {#x#}"
  proof (induction g)
    case Nil
    then show ?case by simp
  next
    case (Cons a g)
    obtain ga zs where a: "a = (ga, zs)" by (cases a)
    show ?case
    proof (cases "ga = k")
      case True
      with Cons.prems a have "k \<notin> fst ` set g" by auto
      then have "map (\<lambda>(ga, ys). if ga = k then (ga, ys @ [x]) else (ga, ys)) g = g"
        by (induction g) auto
      with True a show ?thesis by simp
    next
      case False
      with Cons a show ?thesis by simp
    qed
  qed
  from Some assms have "g' = map (\<lambda>(ga, ys). if ga = k then (ga, ys @ [x]) else (ga, ys)) g"
    by (simp add: push_group_def)
  with u[OF assms(2) Some] show ?thesis by simp
qed

lemma bucket_by_mset:
  "bucket_by f xs g0 = Inr g \<Longrightarrow> distinct (map fst g0) \<Longrightarrow>
   mset (concat (map snd g)) = mset (concat (map snd g0)) + mset xs"
proof (induction xs arbitrary: g0)
  case Nil
  then show ?case by simp
next
  case (Cons x xs)
  from Cons.prems(1) obtain g1
    where p: "push_group (f x) x g0 = Inr g1" and b: "bucket_by f xs g1 = Inr g"
    by (auto split: sum.splits)
  from Cons.IH[OF b push_group_Inr(1)[OF p Cons.prems(2)]] push_group_mset[OF p Cons.prems(2)]
  show ?case by simp
qed

lemma bucket_by_entries:
  assumes "bucket_by f xs [] = Inr g"
  shows "(k, ms) \<in> set g \<longleftrightarrow> ms = filter (\<lambda>x. f x = k) xs \<and> ms \<noteq> []"
proof -
  from bucket_by_Inr[OF assms] have d: "distinct (map fst g)"
    and m: "\<And>k. map_of g k = (if filter (\<lambda>x. f x = k) xs = [] then None
                               else Some (filter (\<lambda>x. f x = k) xs))" by simp_all
  have "(k, ms) \<in> set g \<longleftrightarrow> map_of g k = Some ms" using d by simp
  then show ?thesis by (auto simp: m)
qed

lemma unique_key_filter:
  "distinct (map fst g) \<Longrightarrow> (k, v) \<in> set g \<Longrightarrow> filter (\<lambda>(ga, ms). ga = k) g = [(k, v)]"
proof (induction g)
  case Nil
  then show ?case by simp
next
  case (Cons a g)
  obtain ga zs where a: "a = (ga, zs)" by (cases a)
  show ?case
  proof (cases "ga = k")
    case True
    with Cons.prems a have n: "k \<notin> fst ` set g" by auto
    then have "filter (\<lambda>(ga, ms). ga = k) g = []" by (force simp: filter_empty_conv)
    moreover from n Cons.prems a True have "zs = v" by force
    ultimately show ?thesis using a True by simp
  next
    case False
    with Cons a show ?thesis by auto
  qed
qed

lemma bucket_by_one_group:
  assumes "bucket_by f xs [] = Inr g" and "x \<in> set xs"
  shows "filter (\<lambda>(k, ms). x \<in> set ms) g = [(f x, filter (\<lambda>y. f y = f x) xs)]"
proof -
  from bucket_by_Inr[OF assms(1)] have d: "distinct (map fst g)" by simp
  have e: "(f x, filter (\<lambda>y. f y = f x) xs) \<in> set g"
    using assms(2) by (auto simp: bucket_by_entries[OF assms(1)] filter_empty_conv)
  have "filter (\<lambda>(k, ms). x \<in> set ms) g = filter (\<lambda>(k, ms). k = f x) g"
    by (rule filter_cong) (use assms(2) in \<open>auto simp: bucket_by_entries[OF assms(1)]\<close>)
  with unique_key_filter[OF d e] show ?thesis by simp
qed

text \<open>
  After a grouping pass of strategy B has completed on pairwise different image objects
  (those of a listing are), every image object of the input is a member of exactly one
  group, exactly once, and is not in the "Other Images" bucket; the members of all groups
  together are exactly the input images. When the image list of the state is the input of
  the pass, as \<^verbatim>\<open>fetchEventImages\<close> leaves it, the bucket is empty.
\<close>

theorem strategy_B_partition:
  assumes "detectAndGroupFaces_B w bucket eventId ims s = (s', None)"
    and "distinct (map oid ims)"
    and "im \<in> set ims"
  shows "length (filter (\<lambda>(g, ms). im \<in> set ms) (faceGroups s')) = 1
     \<and> count_list (concat (map snd (faceGroups s'))) im = 1
     \<and> im \<notin> set (otherImages s')
     \<and> mset (concat (map snd (faceGroups s'))) = mset ims
     \<and> (images s = ims \<longrightarrow> otherImages s' = [])"
proof -
  from assms(1) obtain g where g: "groups_B w bucket eventId ims = Inr g"
    and s': "s' = s\<lparr>faceGroups := g\<rparr>"
    by (auto simp: detectAndGroupFaces_B_def split: sum.splits)
  from g have b: "bucket_by (gid_B (results_B w bucket eventId ims)) ims [] = Inr g"
    by (simp add: groups_B_def)
  have one: "length (filter (\<lambda>(g, ms). im \<in> set ms) (faceGroups s')) = 1"
    using bucket_by_one_group[OF b assms(3)] by (simp add: s')
  have all: "mset (concat (map snd (faceGroups s'))) = mset ims"
    using bucket_by_mset[OF b] by (simp add: s')
  from assms(2) have d: "distinct ims" by (simp add: distinct_map)
  have "count (mset (concat (map snd (faceGroups s')))) im = 1"
    unfolding all using d assms(3) by (simp add: distinct_count_atmost_1)
  then have once: "count_list (concat (map snd (faceGroups s'))) im = 1"
    by (simp only: count_mset)
  from all have mem: "set (concat (map snd (faceGroups s'))) = set ims"
    by (rule mset_eq_setD)
  have other: "im \<notin> set (otherImages s')"
    unfolding otherImages_def using assms(3) mem by auto
  have none: "images s = ims \<longrightarrow> otherImages s' = []"
    unfolding otherImages_def using mem by (auto simp: s' filter_empty_conv)
  from one once other all none show ?thesis by blast
qed

theorem strategy_B_partition_witness:
  "faceGroups (fst (detectAndGroupFaces_B
     \<lparr>listed = Fulfilled (Some [''ev'']), created = Fulfilled (),
      matched = (\<lambda>i. if i = 0 then Rejected (ServiceException ''Throttled'')
                 else Fulfilled \<lparr>FaceMatches = Some
                   [\<lparr>Face = Some \<lparr>FaceId = Some ''f0'', BoundingBox = None :: unit option,
                                  ExternalImageId = Some ''b.png''\<rparr>\<rparr>,
                    \<lparr>Face = Some \<lparr>FaceId = Some ''f1'', BoundingBox = None,
                                  ExternalImageId = Some ''group_7_abc''\<rparr>\<rparr>]\<rparr>),
      stamped = (\<lambda>i. (1700000000000 + i, ''x1y2z3'')),
      tagged = (\<lambda>i. Rejected (ServiceException ''Throttled''))\<rparr>
     ''bkt'' ''ev''
     [\<lparr>oid = 10, url = ''https://bkt.s3.amazonaws.com/a.jpg'', key = ''a.jpg''\<rparr>,
      \<lparr>oid = 11, url = ''https://bkt.s3.amazonaws.com/b.png'', key = ''b.png''\<rparr>,
      \<lparr>oid = 12, url = ''https://bkt.s3.amazonaws.com/c.jpeg'', key = ''c.jpeg''\<rparr>]
     (\<lparr>deleting = [], images = [], faceGroups = [], error = None, loading = True,
      uploading = False, uploadProgress = 0\<rparr>\<lparr>images := [\<lparr>oid = 10, url = ''https://bkt.s3.amazonaws.com/a.jpg'', key = ''a.jpg''\<rparr>,
      \<lparr>oid = 11, url = ''https://bkt.s3.amazonaws.com/b.png'', key = ''b.png''\<rparr>,
      \<lparr>oid = 12, url = ''https://bkt.s3.amazonaws.com/c.jpeg'', key = ''c.jpeg''\<rparr>]\<rparr>)))
   = [(''group_1700000000000_x1y2z3'', [\<lparr>oid = 10, url = ''https://bkt.s3.amazonaws.com/a.jpg'', key = ''a.jpg''\<rparr>]),
      (''group_7_abc'', [\<lparr>oid = 11, url = ''https://bkt.s3.amazonaws.com/b.png'', key = ''b.png''\<rparr>]),
      (''b.png'', [\<lparr>oid = 12, url = ''https://bkt.s3.amazonaws.com/c.jpeg'', key = ''c.jpeg''\<rparr>])]
   \<and> count_list (concat (map snd (faceGroups (fst (detectAndGroupFaces_B
     \<lparr>listed = Fulfilled (Some [''ev'']), created = Fulfilled (),
      matched = (\<lambda>i. if i = 0 then Rejected (ServiceException ''Throttled'')
                 else Fulfilled \<lparr>FaceMatches = Some
                   [\<lparr>Face = Some \<lparr>FaceId = Some ''f0'', BoundingBox = None :: unit option,
                                  ExternalImageId = Some ''b.png''\<rparr>\<rparr>,
                    \<lparr>Face = Some \<lparr>FaceId = Some ''f1'', BoundingBox = None,
                                  ExternalImageId = Some ''group_7_abc''\<rparr>\<rparr>]\<rparr>),
      stamped = (\<lambda>i. (1700000000000 + i, ''x1y2z3'')),
      tagged = (\<lambda>i. Rejected (ServiceException ''Throttled''))\<rparr>
     ''bkt'' ''ev''
     [\<lparr>oid = 10, url = ''https://bkt.s3.amazonaws.com/a.jpg'', key = ''a.jpg''\<rparr>,
      \<lparr>oid = 11, url = ''https://bkt.s3.amazonaws.com/b.png'', key = ''b.png''\<rparr>,
      \<lparr>oid = 12, url = ''https://bkt.s3.amazonaws.com/c.jpeg'', key = ''c.jpeg''\<rparr>]
     (\<lparr>deleting = [], images = [], faceGroups = [], error = None, loading = True,
      uploading = False, uploadProgress = 0\<rparr>\<lparr>images := [\<lparr>oid = 10, url = ''https://bkt.s3.amazonaws.com/a.jpg'', key = ''a.jpg''\<rparr>,
      \<lparr>oid = 11, url = ''https://bkt.s3.amazonaws.com/b.png'', key = ''b.png''\<rparr>,
      \<lparr>oid = 12, url = ''https://bkt.s3.amazonaws.com/c.jpeg'', key = ''c.jpeg''\<rparr>]\<rparr>)))))) \<lparr>oid = 11, url = ''https://bkt.s3.amazonaws.com/b.png'', key = ''b.png''\<rparr> = 1
   \<and> otherImages (fst (detectAndGroupFaces_B
     \<lparr>listed = Fulfilled (Some [''ev'']), created = Fulfilled (),
      matched = (\<lambda>i. if i = 0 then Rejected (ServiceException ''Throttled'')
                 else Fulfilled \<lparr>FaceMatches = Some
                   [\<lparr>Face = Some \<lparr>FaceId = Some ''f0'', BoundingBox = None :: unit option,
                                  ExternalImageId = Some ''b.png''\<rparr>\<rparr>,
                    \<lparr>Face = Some \<lparr>FaceId = Some ''f1'', BoundingBox = None,
                                  ExternalImageId = Some ''group_7_abc''\<rparr>\<rparr>]\<rparr>),
      stamped = (\<lambda>i. (1700000000000 + i, ''x1y2z3'')),
      tagged = (\<lambda>i. Rejected (ServiceException ''Throttled''))\<rparr>
     ''bkt'' ''ev''
     [\<lparr>oid = 10, url = ''https://bkt.s3.amazonaws.com/a.jpg'', key = ''a.jpg''\<rparr>,
      \<lparr>oid = 11, url = ''https://bkt.s3.amazonaws.com/b.png'', key = ''b.png''\<rparr>,
      \<lparr>oid = 12, url = ''https://bkt.s3.amazonaws.com/c.jpeg'', key = ''c.jpeg''\<rparr>]
     (\<lparr>deleting = [], images = [], faceGroups = [], error = None, loading = True,
      uploading = False, uploadProgress = 0\<rparr>\<lparr>images := [\<lparr>oid = 10, url = ''https://bkt.s3.amazonaws.com/a.jpg'', key = ''a.jpg''\<rparr>,
      \<lparr>oid = 11, url = ''https://bkt.s3.amazonaws.com/b.png'', key = ''b.png''\<rparr>,
      \<lparr>oid = 12, url = ''https://bkt.s3.amazonaws.com/c.jpeg'', key = ''c.jpeg''\<rparr>]\<rparr>))) = []"
proof -
  let ?w = "\<lparr>listed = Fulfilled (Some [''ev'']), created = Fulfilled (),
      matched = (\<lambda>i. if i = 0 then Rejected (ServiceException ''Throttled'')
                 else Fulfilled \<lparr>FaceMatches = Some
                   [\<lparr>Face = Some \<lparr>FaceId = Some ''f0'', BoundingBox = None :: unit option,
                                  ExternalImageId = Some ''b.png''\<rparr>\<rparr>,
                    \<lparr>Face = Some \<lparr>FaceId = Some ''f1'', BoundingBox = None,
                                  ExternalImageId = Some ''group_7_abc''\<rparr>\<rparr>]\<rparr>),
      stamped = (\<lambda>i. (1700000000000 + i, ''x1y2z3'')),
      tagged = (\<lambda>i. Rejected (ServiceException ''Throttled''))\<rparr>"
  let ?a = "\<lparr>oid = 10, url = ''https://bkt.s3.amazonaws.com/a.jpg'', key = ''a.jpg''\<rparr>"
  let ?b = "\<lparr>oid = 11, url = ''https://bkt.s3.amazonaws.com/b.png'', key = ''b.png''\<rparr>"
  let ?c = "\<lparr>oid = 12, url = ''https://bkt.s3.amazonaws.com/c.jpeg'', key = ''c.jpeg''\<rparr>"
  let ?s = "\<lparr>deleting = [], images = [], faceGroups = [], error = None, loading = True,
      uploading = False, uploadProgress = 0\<rparr>\<lparr>images := [?a, ?b, ?c]\<rparr>"
  let ?g = "[(''group_1700000000000_x1y2z3'', [?a]), (''group_7_abc'', [?b]), (''b.png'', [?c])]"
  have r: "results_B ?w ''bkt'' ''ev'' [?a, ?b, ?c]
      = [(''a.jpg'', ''group_1700000000000_x1y2z3''), (''b.png'', ''group_7_abc''),
         (''c.jpeg'', ''b.png'')]"
    by (simp add: results_B_def group_image_eq resolve_groupId_eq foreign_tags_def
        dec.simps digit_chars)
  have h1: "detectAndGroupFaces_B ?w ''bkt'' ''ev'' [?a, ?b, ?c] ?s = (?s\<lparr>faceGroups := ?g\<rparr>, None)"
    by (simp add: detectAndGroupFaces_B_def groups_B_def r gid_B_def push_group_def inherited_def
        cong: sum.case_cong_weak)
  have h2: "distinct (map oid [?a, ?b, ?c])" by simp
  have h3: "?b \<in> set [?a, ?b, ?c]" by simp
  have e: "fst (detectAndGroupFaces_B ?w ''bkt'' ''ev'' [?a, ?b, ?c] ?s) = ?s\<lparr>faceGroups := ?g\<rparr>"
    by (simp only: h1 fst_conv)
  from strategy_B_partition[OF h1 h2 h3] show ?thesis unfolding e by simp
qed

text \<open>
  Claim C1. Under strategy B, after a grouping pass every image of the input is published
  exactly once: in exactly one group or under "Other Images", never in both. The pass that
  \<^verbatim>\<open>fetchEventImages\<close> runs on a fresh listing does that (\<open>strategy_B_partition\<close>). The
  upload handler then runs a second pass on the image list it captured before the upload.
  With one image \<^verbatim>\<open>a.jpg\<close> loaded and one file \<^verbatim>\<open>b.jpg\<close> uploaded, the second pass
  publishes a single group holding the old object of \<^verbatim>\<open>a.jpg\<close>, while the image list holds
  the two objects of the new listing; the filter of "Other Images" compares objects, so
  \<^verbatim>\<open>a.jpg\<close> is shown both in its group and under "Other Images", and \<^verbatim>\<open>b.jpg\<close> is in no
  group.
\<close>

theorem upload_regroups_stale_images:
  "faceGroups (fst (handleFileChange_B
      \<lparr>listed = Fulfilled (Some [''ev'']), created = Fulfilled (),
       matched = (\<lambda>i. Fulfilled \<lparr>FaceMatches = Some ([] :: unit FaceMatch list)\<rparr>),
       stamped = (\<lambda>i. (1700000000000 + i, ''x1y2z3'')),
       tagged = (\<lambda>i. Fulfilled ())\<rparr>
      \<lparr>listed = Fulfilled (Some [''ev'']), created = Fulfilled (),
       matched = (\<lambda>i. Fulfilled \<lparr>FaceMatches = Some ([] :: unit FaceMatch list)\<rparr>),
       stamped = (\<lambda>i. (1700000005000 + i, ''x1y2z3'')),
       tagged = (\<lambda>i. Fulfilled ())\<rparr>
      (\<lambda>p. Fulfilled \<lparr>Contents = Some [\<lparr>Key = Some ''events/shared/ev/images/a.jpg''\<rparr>,
         \<lparr>Key = Some ''events/shared/ev/images/b.jpg''\<rparr>]\<rparr>)
      ''bkt'' 20 None ''ev'' 1 (Some ''guest@example.org'')
      [(0, \<lparr>loaded = Some 1000, total_bytes = Some 1000\<rparr>)] (Fulfilled ())
      \<lparr>deleting = [], images = [\<lparr>oid = 10, url = ''https://bkt.s3.amazonaws.com/events/shared/ev/images/a.jpg'', key = ''events/shared/ev/images/a.jpg''\<rparr>],
       faceGroups = [(''group_1690000000000_k3j2h1'', [\<lparr>oid = 10, url = ''https://bkt.s3.amazonaws.com/events/shared/ev/images/a.jpg'', key = ''events/shared/ev/images/a.jpg''\<rparr>])],
       error = None, loading = False, uploading = False, uploadProgress = 0\<rparr>))
   = [(''group_1700000005000_x1y2z3'', [\<lparr>oid = 10, url = ''https://bkt.s3.amazonaws.com/events/shared/ev/images/a.jpg'', key = ''events/shared/ev/images/a.jpg''\<rparr>])]
   \<and> otherImages (fst (handleFileChange_B
      \<lparr>listed = Fulfilled (Some [''ev'']), created = Fulfilled (),
       matched = (\<lambda>i. Fulfilled \<lparr>FaceMatches = Some ([] :: unit FaceMatch list)\<rparr>),
       stamped = (\<lambda>i. (1700000000000 + i, ''x1y2z3'')),
       tagged = (\<lambda>i. Fulfilled ())\<rparr>
      \<lparr>listed = Fulfilled (Some [''ev'']), created = Fulfilled (),
       matched = (\<lambda>i. Fulfilled \<lparr>FaceMatches = Some ([] :: unit FaceMatch list)\<rparr>),
       stamped = (\<lambda>i. (1700000005000 + i, ''x1y2z3'')),
       tagged = (\<lambda>i. Fulfilled ())\<rparr>
      (\<lambda>p. Fulfilled \<lparr>Contents = Some [\<lparr>Key = Some ''events/shared/ev/images/a.jpg''\<rparr>,
         \<lparr>Key = Some ''events/shared/ev/images/b.jpg''\<rparr>]\<rparr>)
      ''bkt'' 20 None ''ev'' 1 (Some ''guest@example.org'')
      [(0, \<lparr>loaded = Some 1000, total_bytes = Some 1000\<rparr>)] (Fulfilled ())
      \<lparr>deleting = [], images = [\<lparr>oid = 10, url = ''https://bkt.s3.amazonaws.com/events/shared/ev/images/a.jpg'', key = ''events/shared/ev/images/a.jpg''\<rparr>],
       faceGroups = [(''group_1690000000000_k3j2h1'', [\<lparr>oid = 10, url = ''https://bkt.s3.amazonaws.com/events/shared/ev/images/a.jpg'', key = ''events/shared/ev/images/a.jpg''\<rparr>])],
       error = None, loading = False, uploading = False, uploadProgress = 0\<rparr>))
   = [\<lparr>oid = 20, url = ''https://bkt.s3.amazonaws.com/events/shared/ev/images/a.jpg'', key = ''events/shared/ev/images/a.jpg''\<rparr>,
      \<lparr>oid = 21, url = ''https://bkt.s3.amazonaws.com/events/shared/ev/images/b.jpg'', key = ''events/shared/ev/images/b.jpg''\<rparr>]"
proof -
  let ?w1 = "\<lparr>listed = Fulfilled (Some [''ev'']), created = Fulfilled (),
       matched = (\<lambda>i. Fulfilled \<lparr>FaceMatches = Some ([] :: unit FaceMatch list)\<rparr>),
       stamped = (\<lambda>i. (1700000000000 + i, ''x1y2z3'')),
       tagged = (\<lambda>i. Fulfilled ())\<rparr>"
  let ?w2 = "\<lparr>listed = Fulfilled (Some [''ev'']), created = Fulfilled (),
       matched = (\<lambda>i. Fulfilled \<lparr>FaceMatches = Some ([] :: unit FaceMatch list)\<rparr>),
       stamped = (\<lambda>i. (1700000005000 + i, ''x1y2z3'')),
       tagged = (\<lambda>i. Fulfilled ())\<rparr>"
  let ?l = "(\<lambda>p. Fulfilled \<lparr>Contents = Some [\<lparr>Key = Some ''events/shared/ev/images/a.jpg''\<rparr>,
         \<lparr>Key = Some ''events/shared/ev/images/b.jpg''\<rparr>]\<rparr>)"
  let ?ao = "\<lparr>oid = 10, url = ''https://bkt.s3.amazonaws.com/events/shared/ev/images/a.jpg'', key = ''events/shared/ev/images/a.jpg''\<rparr>"
  let ?an = "\<lparr>oid = 20, url = ''https://bkt.s3.amazonaws.com/events/shared/ev/images/a.jpg'', key = ''events/shared/ev/images/a.jpg''\<rparr>"
  let ?bn = "\<lparr>oid = 21, url = ''https://bkt.s3.amazonaws.com/events/shared/ev/images/b.jpg'', key = ''events/shared/ev/images/b.jpg''\<rparr>"
  let ?s = "\<lparr>deleting = [], images = [\<lparr>oid = 10, url = ''https://bkt.s3.amazonaws.com/events/shared/ev/images/a.jpg'', key = ''events/shared/ev/images/a.jpg''\<rparr>],
       faceGroups = [(''group_1690000000000_k3j2h1'', [\<lparr>oid = 10, url = ''https://bkt.s3.amazonaws.com/events/shared/ev/images/a.jpg'', key = ''events/shared/ev/images/a.jpg''\<rparr>])],
       error = None, loading = False, uploading = False, uploadProgress = 0\<rparr>"
  let ?s1 = "?s\<lparr>uploading := True, uploadProgress := 100\<rparr>"
  have k: "is_image_key ''events/shared/ev/images/a.jpg''" "is_image_key ''events/shared/ev/images/b.jpg''" by code_simp+
  have p: "percentage \<lparr>loaded = Some 1000, total_bytes = Some 1000\<rparr> = 100"
    by (simp add: percentage_Some)
  have a: "list_prefixes ?l ''bkt'' 20 (prefixes_for (eventToUse None ''ev'')) ([], None)
      = ([?an, ?bn], None)"
    by (simp add: prefixes_for_def eventToUse_def imageItems_def k)
  have r1: "results_B ?w1 ''bkt'' ''ev'' [?an, ?bn]
      = [(''events/shared/ev/images/a.jpg'', ''group_1700000000000_x1y2z3''), (''events/shared/ev/images/b.jpg'', ''group_1700000000001_x1y2z3'')]"
    by (simp add: results_B_def group_image_eq resolve_groupId_eq foreign_tags_def
        dec.simps digit_chars)
  have d1: "detectAndGroupFaces_B ?w1 ''bkt'' ''ev'' [?an, ?bn]
        \<lparr>deleting = [], images = [?an, ?bn], faceGroups = [(''group_1690000000000_k3j2h1'', [?ao])], error = None, loading = False, uploading = True, uploadProgress = 100\<rparr>
      = (\<lparr>deleting = [], images = [?an, ?bn], faceGroups = [(''group_1700000000000_x1y2z3'', [?an]), (''group_1700000000001_x1y2z3'', [?bn])], error = None, loading = False, uploading = True, uploadProgress = 100\<rparr>, None)"
    by (simp add: detectAndGroupFaces_B_def groups_B_def r1 gid_B_def push_group_def inherited_def
        cong: sum.case_cong_weak)
  have f: "fetchEventImages_B ?w1 ?l ''bkt'' 20 None ''ev''
        \<lparr>deleting = [], images = [?ao], faceGroups = [(''group_1690000000000_k3j2h1'', [?ao])], error = None, loading = False, uploading = True, uploadProgress = 100\<rparr>
      = \<lparr>deleting = [], images = [?an, ?bn], faceGroups = [(''group_1700000000000_x1y2z3'', [?an]), (''group_1700000000001_x1y2z3'', [?bn])], error = None, loading = False, uploading = True, uploadProgress = 100\<rparr>"
    by (simp add: fetchEventImages_B_def fetchEventImages_def a after_listing_def d1 Let_def)
  have r2: "results_B ?w2 ''bkt'' ''ev'' [?ao] = [(''events/shared/ev/images/a.jpg'', ''group_1700000005000_x1y2z3'')]"
    by (simp add: results_B_def group_image_eq resolve_groupId_eq foreign_tags_def
        dec.simps digit_chars)
  have d2: "detectAndGroupFaces_B ?w2 ''bkt'' ''ev'' [?ao]
        \<lparr>deleting = [], images = [?an, ?bn], faceGroups = [(''group_1700000000000_x1y2z3'', [?an]), (''group_1700000000001_x1y2z3'', [?bn])], error = None, loading = False, uploading = True, uploadProgress = 100\<rparr>
      = (\<lparr>deleting = [], images = [?an, ?bn], faceGroups = [(''group_1700000005000_x1y2z3'', [?ao])], error = None, loading = False, uploading = True, uploadProgress = 100\<rparr>, None)"
    by (simp add: detectAndGroupFaces_B_def groups_B_def r2 gid_B_def push_group_def inherited_def
        cong: sum.case_cong_weak)
  have h: "handleFileChange_B ?w1 ?w2 ?l ''bkt'' 20 None ''ev'' 1 (Some ''guest@example.org'')
        [(0, \<lparr>loaded = Some 1000, total_bytes = Some 1000\<rparr>)] (Fulfilled ()) ?s
      = (\<lparr>deleting = [], images = [?an, ?bn], faceGroups = [(''group_1700000005000_x1y2z3'', [?ao])], error = None, loading = False, uploading = False, uploadProgress = 0\<rparr>, None)"
    by (simp add: handleFileChange_B_def handleFileChange_def httpUploadProgress_def p f d2
        handleFileChange_finally_def Let_def)
  show ?thesis unfolding h by (simp add: otherImages_def)
qed

section \<open>Listing the images of an event\<close>

lemma imageItems_keys:
  "map key (imageItems bucket fresh contents)
     = concat (map (\<lambda>item. filter is_image_key (truthy (Key item))) contents)"
proof -
  have "map key (map (\<lambda>(n, k). \<lparr>oid = n, url = u k, key = k\<rparr>) xs) = map snd xs" for u xs
    by (induction xs) auto
  then show ?thesis unfolding imageItems_def by (simp only: map_snd_enumerate)
qed

lemma list_prefixes_acc:
  "map key (fst (list_prefixes listing bucket fresh ps (allImages, fetchError)))
     = map key allImages @ listed_keys listing ps
   \<and> snd (list_prefixes listing bucket fresh ps (allImages, fetchError))
     = (case rejections listing ps of [] \<Rightarrow> fetchError | e # es \<Rightarrow> Some (last (e # es)))"
proof (induction ps arbitrary: allImages fetchError)
  case Nil
  then show ?case by (simp add: listed_keys_def rejections_def)
next
  case (Cons p ps)
  show ?case
  proof (cases "listing p")
    case (Rejected e)
    then have r: "rejections listing (p # ps) = e # rejections listing ps"
      and l: "listed_keys listing (p # ps) = listed_keys listing ps"
      by (simp_all add: rejections_def listed_keys_def)
    from Rejected have u: "list_prefixes listing bucket fresh (p # ps) (allImages, fetchError)
        = list_prefixes listing bucket fresh ps (allImages, Some e)" by simp
    show ?thesis
      unfolding u r l using Cons[of allImages "Some e"]
      by (cases "rejections listing ps") simp_all
  next
    case (Fulfilled result)
    show ?thesis
    proof (cases "Contents result")
      case None
      with Fulfilled Cons[of allImages fetchError] show ?thesis
        by (simp add: listed_keys_def rejections_def)
    next
      case (Some contents)
      with Fulfilled
        Cons[of "allImages @ imageItems bucket (fresh + length allImages) contents" fetchError]
      show ?thesis
        by (simp add: listed_keys_def rejections_def imageItems_keys)
    qed
  qed
qed

lemma imageItems_oids:
  "map oid (imageItems bucket n contents) = [n..<n + length (imageItems bucket n contents)]"
proof -
  have "map oid (map (\<lambda>(n, k). \<lparr>oid = n, url = u k, key = k\<rparr>) xs) = map fst xs" for u xs
    by (induction xs) auto
  then show ?thesis unfolding imageItems_def by (simp only: map_fst_enumerate length_map length_enumerate)
qed

lemma list_prefixes_oids:
  "map oid allImages = [fresh..<fresh + length allImages] \<Longrightarrow>
   map oid (fst (list_prefixes listing bucket fresh ps (allImages, fetchError)))
     = [fresh..<fresh + length (fst (list_prefixes listing bucket fresh ps (allImages, fetchError)))]"
proof (induction ps arbitrary: allImages fetchError)
  case Nil
  then show ?case by simp
next
  case (Cons p ps)
  show ?case
  proof (cases "listing p")
    case (Rejected e)
    then have "list_prefixes listing bucket fresh (p # ps) (allImages, fetchError)
        = list_prefixes listing bucket fresh ps (allImages, Some e)" by simp
    with Cons.IH[OF Cons.prems, of "Some e"] show ?thesis by (simp only:)
  next
    case (Fulfilled result)
    show ?thesis
    proof (cases "Contents result")
      case None
      with Fulfilled have "list_prefixes listing bucket fresh (p # ps) (allImages, fetchError)
          = list_prefixes listing bucket fresh ps (allImages, fetchError)" by simp
      with Cons.IH[OF Cons.prems, of fetchError] show ?thesis by (simp only:)
    next
      case (Some contents)
      let ?new = "imageItems bucket (fresh + length allImages) contents"
      have n: "map oid ?new = [fresh + length allImages..<fresh + length allImages + length ?new]"
        by (rule imageItems_oids)
      have "[fresh..<fresh + length allImages + length ?new]
          = [fresh..<fresh + length allImages]
            @ [fresh + length allImages..<fresh + length allImages + length ?new]"
        by (rule upt_add_eq_append) simp
      then have "map oid (allImages @ ?new) = [fresh..<fresh + length (allImages @ ?new)]"
        by (simp only: map_append Cons.prems n length_append add.assoc)
      from Cons.IH[OF this, of fetchError]
      have "map oid (fst (list_prefixes listing bucket fresh ps (allImages @ ?new, fetchError)))
          = [fresh..<fresh + length (fst (list_prefixes listing bucket fresh ps
               (allImages @ ?new, fetchError)))]" .
      moreover have "list_prefixes listing bucket fresh (p # ps) (allImages, fetchError)
          = list_prefixes listing bucket fresh ps (allImages @ ?new, fetchError)"
        using Fulfilled Some by simp
      ultimately show ?thesis by (simp only:)
    qed
  qed
qed

text \<open>The image objects of a listing are pairwise different.\<close>

lemma listing_objects_distinct:
  "distinct (map oid (fst (list_prefixes listing bucket fresh ps ([], None))))"
  using list_prefixes_oids[of "[]" fresh listing bucket ps None] by simp

text \<open>
  Claim C6. The loop over the prefixes keeps the error of the last listing that failed
  and collects the images of the listings that succeeded. When no image was listed, the
  kept error, if any, is thrown and ends up as the error of the load (its message);
  without one the load reports that no images were found. When at least one image was
  listed, the rest of the load does not depend on the kept error at all: the images are
  stored, the grouping pass runs on them, and when the pass completes the error is
  cleared. The source's list of prefixes has one entry; the loop is stated for any list.
\<close>

theorem listing_error_policy:
  "fetchEventImages detect listing bucket fresh selectedEvent eventId s
     = after_listing detect
         (list_prefixes listing bucket fresh (prefixes_for (eventToUse selectedEvent eventId))
            ([], None)) s
   \<and> (let acc = list_prefixes listing bucket fresh ps ([], None) in
        map key (fst acc) = listed_keys listing ps
      \<and> snd acc = (case rejections listing ps of [] \<Rightarrow> None | e # es \<Rightarrow> Some (last (e # es)))
      \<and> (fst acc = [] \<longrightarrow>
            images (after_listing detect acc s) = images s
          \<and> error (after_listing detect acc s)
              = Some (case snd acc of
                        Some e \<Rightarrow> message e
                      | None \<Rightarrow> ''No images found for this event.''))
      \<and> (fst acc \<noteq> [] \<longrightarrow>
            after_listing detect acc s = after_listing detect (fst acc, None) s
          \<and> (\<forall>s1. detect (fst acc) (s\<lparr>images := fst acc\<rparr>) = (s1, None) \<longrightarrow>
                 after_listing detect acc s = s1\<lparr>error := None, loading := False\<rparr>)))"
proof -
  define acc where "acc = list_prefixes listing bucket fresh ps ([], None)"
  have k: "map key (fst acc) = listed_keys listing ps"
    and e: "snd acc = (case rejections listing ps of [] \<Rightarrow> None | e # es \<Rightarrow> Some (last (e # es)))"
    using list_prefixes_acc[of listing bucket fresh ps "[]" None] by (simp_all add: acc_def)
  have n: "fst acc = [] \<longrightarrow>
            images (after_listing detect acc s) = images s
          \<and> error (after_listing detect acc s)
              = Some (case snd acc of
                        Some e \<Rightarrow> message e
                      | None \<Rightarrow> ''No images found for this event.'')"
    by (simp add: after_listing_def Let_def split: option.splits)
  have i: "fst acc \<noteq> [] \<longrightarrow>
            after_listing detect acc s = after_listing detect (fst acc, None) s
          \<and> (\<forall>s1. detect (fst acc) (s\<lparr>images := fst acc\<rparr>) = (s1, None) \<longrightarrow>
                 after_listing detect acc s = s1\<lparr>error := None, loading := False\<rparr>)"
    by (simp add: after_listing_def Let_def)
  have f: "fetchEventImages detect listing bucket fresh selectedEvent eventId s
     = after_listing detect
         (list_prefixes listing bucket fresh (prefixes_for (eventToUse selectedEvent eventId))
            ([], None)) s"
    by (simp add: fetchEventImages_def)
  from k e n i f show ?thesis unfolding acc_def Let_def by blast
qed

theorem listing_error_policy_witness:
  "error (after_listing (detectAndGroupFaces_B
     \<lparr>listed = Fulfilled (Some [''ev'']), created = Fulfilled (),
      matched = (\<lambda>i. if i = 0 then Rejected (ServiceException ''Throttled'')
                 else Fulfilled \<lparr>FaceMatches = Some
                   [\<lparr>Face = Some \<lparr>FaceId = Some ''f0'', BoundingBox = None :: unit option,
                                  ExternalImageId = Some ''b.png''\<rparr>\<rparr>,
                    \<lparr>Face = Some \<lparr>FaceId = Some ''f1'', BoundingBox = None,
                                  ExternalImageId = Some ''group_7_abc''\<rparr>\<rparr>]\<rparr>),
      stamped = (\<lambda>i. (1700000000000 + i, ''x1y2z3'')),
      tagged = (\<lambda>i. Rejected (ServiceException ''Throttled''))\<rparr>
     ''bkt'' ''ev'')
     (list_prefixes (\<lambda>p. if p = ''p1'' then Rejected (ServiceException ''AccessDenied'')
          else Fulfilled \<lparr>Contents = Some [\<lparr>Key = Some ''p2/a.JPG''\<rparr>,
                 \<lparr>Key = Some ''p2/notes.txt''\<rparr>, \<lparr>Key = None\<rparr>]\<rparr>)
        ''bkt'' 10 [''p1'', ''p2''] ([], None))
     \<lparr>deleting = [], images = [], faceGroups = [], error = Some ''stale'', loading = True,
      uploading = False, uploadProgress = 0\<rparr>) = None
   \<and> images (after_listing (detectAndGroupFaces_B
     \<lparr>listed = Fulfilled (Some [''ev'']), created = Fulfilled (),
      matched = (\<lambda>i. if i = 0 then Rejected (ServiceException ''Throttled'')
                 else Fulfilled \<lparr>FaceMatches = Some
                   [\<lparr>Face = Some \<lparr>FaceId = Some ''f0'', BoundingBox = None :: unit option,
                                  ExternalImageId = Some ''b.png''\<rparr>\<rparr>,
                    \<lparr>Face = Some \<lparr>FaceId = Some ''f1'', BoundingBox = None,
                                  ExternalImageId = Some ''group_7_abc''\<rparr>\<rparr>]\<rparr>),
      stamped = (\<lambda>i. (1700000000000 + i, ''x1y2z3'')),
      tagged = (\<lambda>i. Rejected (ServiceException ''Throttled''))\<rparr>
     ''bkt'' ''ev'')
     (list_prefixes (\<lambda>p. if p = ''p1'' then Rejected (ServiceException ''AccessDenied'')
          else Fulfilled \<lparr>Contents = Some [\<lparr>Key = Some ''p2/a.JPG''\<rparr>,
                 \<lparr>Key = Some ''p2/notes.txt''\<rparr>, \<lparr>Key = None\<rparr>]\<rparr>)
        ''bkt'' 10 [''p1'', ''p2''] ([], None))
     \<lparr>deleting = [], images = [], faceGroups = [], error = Some ''stale'', loading = True,
      uploading = False, uploadProgress = 0\<rparr>)
       = [\<lparr>oid = 10, url = ''https://bkt.s3.amazonaws.com/p2/a.JPG'', key = ''p2/a.JPG''\<rparr>]
   \<and> error (after_listing (detectAndGroupFaces_B
     \<lparr>listed = Fulfilled (Some [''ev'']), created = Fulfilled (),
      matched = (\<lambda>i. if i = 0 then Rejected (ServiceException ''Throttled'')
                 else Fulfilled \<lparr>FaceMatches = Some
                   [\<lparr>Face = Some \<lparr>FaceId = Some ''f0'', BoundingBox = None :: unit option,
                                  ExternalImageId = Some ''b.png''\<rparr>\<rparr>,
                    \<lparr>Face = Some \<lparr>FaceId = Some ''f1'', BoundingBox = None,
                                  ExternalImageId = Some ''group_7_abc''\<rparr>\<rparr>]\<rparr>),
      stamped = (\<lambda>i. (1700000000000 + i, ''x1y2z3'')),
      tagged = (\<lambda>i. Rejected (ServiceException ''Throttled''))\<rparr>
     ''bkt'' ''ev'')
     (list_prefixes (\<lambda>p. if p = ''p1'' then Rejected (ServiceException ''AccessDenied'')
          else Fulfilled \<lparr>Contents = Some [\<lparr>Key = Some ''p2/a.JPG''\<rparr>,
                 \<lparr>Key = Some ''p2/notes.txt''\<rparr>, \<lparr>Key = None\<rparr>]\<rparr>)
        ''bkt'' 10 [''p1''] ([], None))
     \<lparr>deleting = [], images = [], faceGroups = [], error = Some ''stale'', loading = True,
      uploading = False, uploadProgress = 0\<rparr>) = Some ''AccessDenied''"
proof -
  let ?w = "\<lparr>listed = Fulfilled (Some [''ev'']), created = Fulfilled (),
      matched = (\<lambda>i. if i = 0 then Rejected (ServiceException ''Throttled'')
                 else Fulfilled \<lparr>FaceMatches = Some
                   [\<lparr>Face = Some \<lparr>FaceId = Some ''f0'', BoundingBox = None :: unit option,
                                  ExternalImageId = Some ''b.png''\<rparr>\<rparr>,
                    \<lparr>Face = Some \<lparr>FaceId = Some ''f1'', BoundingBox = None,
                                  ExternalImageId = Some ''group_7_abc''\<rparr>\<rparr>]\<rparr>),
      stamped = (\<lambda>i. (1700000000000 + i, ''x1y2z3'')),
      tagged = (\<lambda>i. Rejected (ServiceException ''Throttled''))\<rparr>"
  let ?l = "(\<lambda>p. if p = ''p1'' then Rejected (ServiceException ''AccessDenied'')
          else Fulfilled \<lparr>Contents = Some [\<lparr>Key = Some ''p2/a.JPG''\<rparr>,
                 \<lparr>Key = Some ''p2/notes.txt''\<rparr>, \<lparr>Key = None\<rparr>]\<rparr>)"
  let ?i = "\<lparr>oid = 10, url = ''https://bkt.s3.amazonaws.com/p2/a.JPG'', key = ''p2/a.JPG''\<rparr>"
  let ?s = "\<lparr>deleting = [], images = [], faceGroups = [], error = Some ''stale'', loading = True,
      uploading = False, uploadProgress = 0\<rparr>"
  let ?d = "detectAndGroupFaces_B ?w ''bkt'' ''ev''"
  have k: "is_image_key ''p2/a.JPG''" "\<not> is_image_key ''p2/notes.txt''" by code_simp+
  have a2: "list_prefixes ?l ''bkt'' 10 [''p1'', ''p2''] ([], None)
      = ([?i], Some (ServiceException ''AccessDenied''))"
    by (simp add: imageItems_def k)
  have a1: "list_prefixes ?l ''bkt'' 10 [''p1''] ([], None)
      = ([], Some (ServiceException ''AccessDenied''))"
    by simp
  have r: "results_B ?w ''bkt'' ''ev'' [?i] = [(''p2/a.JPG'', ''group_1700000000000_x1y2z3'')]"
    by (simp add: results_B_def group_image_eq resolve_groupId_eq foreign_tags_def
        dec.simps digit_chars)
  let ?acc = "([?i], Some (ServiceException ''AccessDenied''))"
  have d: "?d (fst ?acc) (?s\<lparr>images := fst ?acc\<rparr>)
      = (?s\<lparr>images := [?i], faceGroups := [(''group_1700000000000_x1y2z3'', [?i])]\<rparr>, None)"
    by (simp add: detectAndGroupFaces_B_def groups_B_def r gid_B_def push_group_def inherited_def
        cong: sum.case_cong_weak)
  have ne: "fst ?acc \<noteq> []" by simp
  have em: "fst ([] :: EventImage list, Some (ServiceException ''AccessDenied'')) = []" by simp
  note t2 = listing_error_policy[of ?d ?l "''bkt''" 10 None "''ev''" ?s "[''p1'', ''p2'']",
      unfolded Let_def a2, THEN conjunct2, THEN conjunct2, THEN conjunct2, THEN conjunct2,
      rule_format, OF ne, THEN conjunct2, rule_format, OF d]
  note t1 = listing_error_policy[of ?d ?l "''bkt''" 10 None "''ev''" ?s "[''p1'']",
      unfolded Let_def a1, THEN conjunct2, THEN conjunct2, THEN conjunct2, THEN conjunct1,
      rule_format, OF em, THEN conjunct2]
  from t1 have "error (after_listing ?d ([], Some (ServiceException ''AccessDenied'')) ?s)
      = Some ''AccessDenied''" by simp
  then show ?thesis unfolding a1 a2 t2 by simp
qed

section \<open>Strategy A: resolving group ids\<close>

lemma matchedGroupIds_assigned:
  "matchedGroupIds m ms = List.map_filter (assigned_GroupId m) ms"
proof (induction ms)
  case Nil
  then show ?case by (simp add: matchedGroupIds_def)
next
  case (Cons mt ms)
  have "matchedGroupIds m (mt # ms)
      = concat (map (\<lambda>fid. truthy (m fid))
          (truthy (case Face mt of None \<Rightarrow> None | Some f \<Rightarrow> FaceId f)))
        @ matchedGroupIds m ms"
    by (simp add: matchedGroupIds_def)
  moreover have "concat (map (\<lambda>fid. truthy (m fid))
          (truthy (case Face mt of None \<Rightarrow> None | Some f \<Rightarrow> FaceId f)))
      = (case assigned_GroupId m mt of None \<Rightarrow> [] | Some gid \<Rightarrow> [gid])"
    by (simp add: assigned_GroupId_def split: option.splits)
  ultimately show ?case using Cons by (simp split: option.splits)
qed

lemma assigned_GroupId_in_map:
  "assigned_GroupId m mt = Some gid \<Longrightarrow> \<exists>fid. m fid = Some gid"
  by (auto simp: assigned_GroupId_def split: option.splits if_splits)

lemma matchedGroupIds_in_map:
  assumes "gid \<in> set (matchedGroupIds m ms)"
  shows "\<exists>fid. m fid = Some gid"
proof -
  from assms have "gid \<in> set (List.map_filter (assigned_GroupId m) ms)"
    by (simp only: matchedGroupIds_assigned)
  then obtain mt where "mt \<in> set ms" and "assigned_GroupId m mt = Some gid"
    unfolding map_filter_def by auto
  then show ?thesis by (auto dest: assigned_GroupId_in_map)
qed

lemma map_filter_first:
  "i < length ms \<Longrightarrow> f (ms ! i) = Some y \<Longrightarrow> \<forall>j<i. f (ms ! j) = None \<Longrightarrow>
   List.map_filter f ms = y # List.map_filter f (drop (Suc i) ms)"
proof (induction ms arbitrary: i)
  case Nil
  then show ?case by simp
next
  case (Cons a ms)
  show ?case
  proof (cases i)
    case 0
    with Cons.prems show ?thesis by simp
  next
    case (Suc i')
    from Cons.prems(3) Suc have a: "f a = None" by force
    from Cons.prems Suc have "i' < length ms" "f (ms ! i') = Some y" by simp_all
    moreover from Cons.prems(3) Suc have "\<forall>j<i'. f (ms ! j) = None" by force
    ultimately have "List.map_filter f ms = y # List.map_filter f (drop (Suc i') ms)"
      by (rule Cons.IH)
    with a Suc show ?thesis by simp
  qed
qed

lemma matchedGroupIds_first:
  assumes "i < length ms" and "assigned_GroupId m (ms ! i) = Some gid"
    and "\<forall>j<i. assigned_GroupId m (ms ! j) = None"
  shows "matchedGroupIds m ms = gid # matchedGroupIds m (drop (Suc i) ms)"
  unfolding matchedGroupIds_assigned using assms by (rule map_filter_first)

lemma new_group_minted:
  assumes "minted_so_far g"
  shows "minted_so_far (new_group fid g)"
  unfolding minted_so_far_def
proof (intro allI impI)
  fix fid' gid
  assume a: "fst (new_group fid g) fid' = Some gid"
  show "\<exists>k. 0 < k \<and> k \<le> snd (new_group fid g) \<and> gid = ''group_'' @ dec k"
  proof (cases "fid' = fid")
    case True
    with a have "gid = ''group_'' @ dec (snd g + 1)" by (simp add: new_group_def)
    then show ?thesis by (intro exI[of _ "snd g + 1"]) (simp add: new_group_def)
  next
    case False
    with a have "fst g fid' = Some gid" by (simp add: new_group_def)
    with assms obtain k where "0 < k" "k \<le> snd g" "gid = ''group_'' @ dec k"
      unfolding minted_so_far_def by blast
    then show ?thesis by (intro exI[of _ k]) (simp add: new_group_def)
  qed
qed

lemma search_settled_cases:
  "search_settled faceRec r g = new_group (faceId faceRec) g
   \<or> (\<exists>gid fid0. fst g fid0 = Some gid
         \<and> search_settled faceRec r g = ((fst g)(faceId faceRec \<mapsto> gid), snd g))"
proof (cases r)
  case (Rejected e)
  then show ?thesis by (simp add: search_settled_def)
next
  case (Fulfilled resp)
  show ?thesis
  proof (cases "FaceMatches resp")
    case None
    with Fulfilled show ?thesis by (simp add: search_settled_def)
  next
    case (Some ms)
    show ?thesis
    proof (cases "matchedGroupIds (fst g) ms")
      case Nil
      with Some Fulfilled show ?thesis by (simp add: search_settled_def)
    next
      case (Cons gid rest)
      then have "gid \<in> set (matchedGroupIds (fst g) ms)" by simp
      then obtain fid0 where "fst g fid0 = Some gid" by (auto dest: matchedGroupIds_in_map)
      moreover from Cons have "ms \<noteq> []" by (auto simp: matchedGroupIds_def)
      ultimately show ?thesis using Some Fulfilled Cons by (auto simp: search_settled_def)
    qed
  qed
qed

lemma search_settled_minted:
  assumes "minted_so_far g"
  shows "minted_so_far (search_settled faceRec r g)"
proof -
  from search_settled_cases[of faceRec r g] show ?thesis
  proof
    assume "search_settled faceRec r g = new_group (faceId faceRec) g"
    with assms show ?thesis by (simp add: new_group_minted)
  next
    assume "\<exists>gid fid0. fst g fid0 = Some gid
         \<and> search_settled faceRec r g = ((fst g)(faceId faceRec \<mapsto> gid), snd g)"
    then obtain gid fid0 where a: "fst g fid0 = Some gid"
      and s: "search_settled faceRec r g = ((fst g)(faceId faceRec \<mapsto> gid), snd g)" by blast
    from assms a obtain k where k: "0 < k" "k \<le> snd g" "gid = ''group_'' @ dec k"
      unfolding minted_so_far_def by blast
    show ?thesis
      unfolding s minted_so_far_def
    proof (intro allI impI)
      fix fid' gid'
      assume b: "fst ((fst g)(faceId faceRec \<mapsto> gid), snd g) fid' = Some gid'"
      show "\<exists>k. 0 < k \<and> k \<le> snd ((fst g)(faceId faceRec \<mapsto> gid), snd g) \<and> gid' = ''group_'' @ dec k"
      proof (cases "fid' = faceId faceRec")
        case True
        with b have "gid' = gid" by simp
        with k show ?thesis by (intro exI[of _ k]) simp
      next
        case False
        with b have "fst g fid' = Some gid'" by simp
        with assms obtain k' where "0 < k'" "k' \<le> snd g" "gid' = ''group_'' @ dec k'"
          unfolding minted_so_far_def by blast
        then show ?thesis by (intro exI[of _ k']) simp
      qed
    qed
  qed
qed

lemma search_settled_dom:
  "dom (fst (search_settled faceRec r g)) = insert (faceId faceRec) (dom (fst g))"
proof -
  from search_settled_cases[of faceRec r g] show ?thesis
  proof
    assume "search_settled faceRec r g = new_group (faceId faceRec) g"
    then show ?thesis by (simp add: new_group_def)
  next
    assume "\<exists>gid fid0. fst g fid0 = Some gid
         \<and> search_settled faceRec r g = ((fst g)(faceId faceRec \<mapsto> gid), snd g)"
    then obtain gid where "search_settled faceRec r g = ((fst g)(faceId faceRec \<mapsto> gid), snd g)"
      by blast
    then show ?thesis by simp
  qed
qed

lemma search_steps_minted:
  "minted_so_far g \<Longrightarrow>
   minted_so_far (foldl (\<lambda>g j. search_settled (temp ! j) (fnd j) g) g js)"
  by (induction js arbitrary: g) (simp_all add: search_settled_minted)

lemma search_steps_dom:
  "dom (fst (foldl (\<lambda>g j. search_settled (temp ! j) (fnd j) g) g js))
     = dom (fst g) \<union> (\<lambda>j. faceId (temp ! j)) ` set js"
  by (induction js arbitrary: g) (auto simp: search_settled_dom)

lemma search_phase_minted: "minted_so_far (search_phase w temp)"
  unfolding search_phase_def by (rule search_steps_minted) (simp add: minted_so_far_def)

lemma search_phase_dom:
  "dom (fst (search_phase w temp))
     = (\<lambda>j. faceId (temp ! j)) ` {j \<in> set (search_order w). j < length temp}"
  unfolding search_phase_def by (simp add: search_steps_dom)

lemma new_group_fresh:
  assumes "minted_so_far g"
  shows "''group_'' @ dec (snd g + 1) \<notin> ran (fst g)"
proof
  assume "''group_'' @ dec (snd g + 1) \<in> ran (fst g)"
  then obtain fid where "fst g fid = Some (''group_'' @ dec (snd g + 1))" by (auto simp: ran_def)
  with assms obtain k where "k \<le> snd g" "''group_'' @ dec (snd g + 1) = ''group_'' @ dec k"
    unfolding minted_so_far_def by blast
  then have "snd g + 1 = k" by (auto dest: dec_inj)
  with \<open>k \<le> snd g\<close> show False by simp
qed

lemma resolved_not_inherited:
  assumes "minted_so_far (m, c)"
  shows "resolved m faceRec \<notin> set inherited"
proof (cases "m (faceId faceRec)")
  case None
  then show ?thesis by (simp add: resolved_def inherited_def)
next
  case (Some gid)
  with assms obtain k where "gid = ''group_'' @ dec k" unfolding minted_so_far_def by auto
  then have "resolved m faceRec = ''group_'' @ dec k" using Some by (simp add: resolved_def)
  then show ?thesis by (simp only: group_not_inherited not_False_eq_True)
qed

lemma newGroups_A_total: "\<exists>groups. newGroups_A w ims = Inr groups"
proof -
  have "minted_so_far (fst (search_phase w (index_phase w ims)), snd (search_phase w (index_phase w ims)))"
    using search_phase_minted[of w "index_phase w ims"] by simp
  then have "\<forall>r \<in> set (index_phase w ims).
      resolved (fst (search_phase w (index_phase w ims))) r \<notin> set inherited"
    by (intro ballI resolved_not_inherited)
  then show ?thesis unfolding newGroups_A_def Let_def by (rule bucket_by_total)
qed

lemma ensureCollection_no_search:
  "filter (\<lambda>c. case c of SearchFacesCommand a b n t \<Rightarrow> True | _ \<Rightarrow> False)
     (ensureCollection l c eventId) = []"
  by (simp add: ensureCollection_def Let_def split: settled.splits)

lemma sent_A_searches:
  "filter (\<lambda>c. case c of SearchFacesCommand a b n t \<Rightarrow> True | _ \<Rightarrow> False)
     (sent_A w bucket eventId ims)
   = map (\<lambda>faceRec. SearchFacesCommand eventId (faceId faceRec) 5 80) (index_phase w ims)"
proof -
  have i: "filter (\<lambda>c. case c of SearchFacesCommand a b n t \<Rightarrow> True | _ \<Rightarrow> False)
      (map (\<lambda>im. IndexFacesCommand eventId bucket (key im) ''placeholder'') xs) = []" for xs
    by (induction xs) simp_all
  have s: "filter (\<lambda>c. case c of SearchFacesCommand a b n t \<Rightarrow> True | _ \<Rightarrow> False)
      (map (\<lambda>faceRec. SearchFacesCommand eventId (faceId faceRec) 5 80) rs)
      = map (\<lambda>faceRec. SearchFacesCommand eventId (faceId faceRec) 5 80) rs" for rs :: "'a FaceRecordWithImage list"
    by (induction rs) simp_all
  show ?thesis by (simp add: sent_A_def ensureCollection_no_search i s)
qed

text \<open>
  Claim C2. Under strategy A, when the search of a face record returns matches and the
  match at position \<open>i\<close> is the first one whose face id has a group id at the moment the
  result is processed, the face record gets that group id and the counter stays as it is.
  Phase 2 sends one \<^verbatim>\<open>SearchFacesCommand\<close> per face record, each with \<^verbatim>\<open>MaxFaces\<close> 5 and
  \<^verbatim>\<open>FaceMatchThreshold\<close> 80.
\<close>

theorem adopt_first_assigned_group:
  assumes "FaceMatches searchResponse = Some ms"
    and "i < length ms"
    and "assigned_GroupId (fst g) (ms ! i) = Some gid"
    and "\<forall>j<i. assigned_GroupId (fst g) (ms ! j) = None"
  shows "search_settled faceRec (Fulfilled searchResponse) g
           = ((fst g)(faceId faceRec \<mapsto> gid), snd g)
     \<and> filter (\<lambda>c. case c of SearchFacesCommand a b n t \<Rightarrow> True | _ \<Rightarrow> False)
         (sent_A w bucket eventId ims)
       = map (\<lambda>faceRec. SearchFacesCommand eventId (faceId faceRec) 5 80) (index_phase w ims)"
proof -
  from assms(2) have "ms \<noteq> []" by auto
  moreover from matchedGroupIds_first[OF assms(2,3,4)]
  have "matchedGroupIds (fst g) ms = gid # matchedGroupIds (fst g) (drop (Suc i) ms)" .
  ultimately have "search_settled faceRec (Fulfilled searchResponse) g
           = ((fst g)(faceId faceRec \<mapsto> gid), snd g)"
    using assms(1) by (simp add: search_settled_def)
  with sent_A_searches show ?thesis by blast
qed

theorem adopt_first_assigned_group_witness:
  "search_settled \<lparr>faceId = ''f-c1'', boundingBox = None :: unit option, img = \<lparr>oid = 12, url = ''https://bkt.s3.amazonaws.com/c.jpeg'', key = ''c.jpeg''\<rparr>\<rparr>
     (Fulfilled \<lparr>FaceMatches = Some [\<lparr>Face = Some \<lparr>FaceId = Some ''f-zz'', BoundingBox = None :: unit option, ExternalImageId = Some ''placeholder''\<rparr>\<rparr>,
        \<lparr>Face = Some \<lparr>FaceId = Some ''f-a1'', BoundingBox = None :: unit option, ExternalImageId = Some ''placeholder''\<rparr>\<rparr>]\<rparr>)
     ([''f-a1'' \<mapsto> ''group_1''], 1)
   = ([''f-a1'' \<mapsto> ''group_1'', ''f-c1'' \<mapsto> ''group_1''], 1)"
proof -
  let ?ms = "[\<lparr>Face = Some \<lparr>FaceId = Some ''f-zz'', BoundingBox = None :: unit option, ExternalImageId = Some ''placeholder''\<rparr>\<rparr>,
        \<lparr>Face = Some \<lparr>FaceId = Some ''f-a1'', BoundingBox = None :: unit option, ExternalImageId = Some ''placeholder''\<rparr>\<rparr>]"
  let ?g = "([''f-a1'' \<mapsto> ''group_1''], 1 :: nat)"
  have h1: "FaceMatches \<lparr>FaceMatches = Some ?ms\<rparr> = Some ?ms" by simp
  have h2: "1 < length ?ms" by simp
  have h3: "assigned_GroupId (fst ?g) (?ms ! 1) = Some ''group_1''"
    by (simp add: assigned_GroupId_def)
  have h4: "\<forall>j<1. assigned_GroupId (fst ?g) (?ms ! j) = None"
    by (simp add: assigned_GroupId_def)
  from adopt_first_assigned_group[OF h1 h2 h3 h4, THEN conjunct1] show ?thesis by simp
qed

text \<open>
  Claim C8. Under strategy A the final loop always completes, and the partition it
  publishes has one bucket per group id in use: the bucket of a group id holds exactly the
  face records resolved to that id, in the order in which they stand in the list of all
  face records. A face record with an entry in \<^verbatim>\<open>faceIdToGroupId\<close> is resolved to that
  entry.
\<close>

theorem partition_by_resolved_group:
  "\<exists>groups. newGroups_A w ims = Inr groups
     \<and> detectAndGroupFaces_A w ims s
         = (s\<lparr>allFaceRecords := index_phase w ims, faceGroups := groups\<rparr>, None)
     \<and> distinct (map fst groups)
     \<and> (\<forall>gid rs. (gid, rs) \<in> set groups \<longleftrightarrow>
           rs \<noteq> [] \<and>
           rs = filter (\<lambda>r. resolved (fst (search_phase w (index_phase w ims))) r = gid)
                  (index_phase w ims))
     \<and> (\<forall>r gid. fst (search_phase w (index_phase w ims)) (faceId r) = Some gid \<longrightarrow>
           resolved (fst (search_phase w (index_phase w ims))) r = gid)"
proof -
  from newGroups_A_total obtain groups where g: "newGroups_A w ims = Inr groups" by blast
  then have b: "bucket_by (resolved (fst (search_phase w (index_phase w ims))))
      (index_phase w ims) [] = Inr groups"
    by (simp add: newGroups_A_def Let_def)
  have d: "distinct (map fst groups)" using bucket_by_Inr[OF b] by simp
  have e: "\<forall>gid rs. (gid, rs) \<in> set groups \<longleftrightarrow>
           rs \<noteq> [] \<and>
           rs = filter (\<lambda>r. resolved (fst (search_phase w (index_phase w ims))) r = gid)
                  (index_phase w ims)"
    using bucket_by_entries[OF b] by blast
  have s: "detectAndGroupFaces_A w ims s
         = (s\<lparr>allFaceRecords := index_phase w ims, faceGroups := groups\<rparr>, None)"
    by (simp add: detectAndGroupFaces_A_def g Let_def)
  have r: "\<forall>r gid. fst (search_phase w (index_phase w ims)) (faceId r) = Some gid \<longrightarrow>
           resolved (fst (search_phase w (index_phase w ims))) r = gid"
    by (simp add: resolved_def)
  from g s d e r show ?thesis by blast
qed

theorem partition_by_resolved_group_witness:
  "newGroups_A
     \<lparr>listed = Rejected (ServiceException ''Unavailable''), created = Fulfilled (),
      indexed = (\<lambda>i. if i = 0 then Fulfilled \<lparr>FaceRecords = Some [\<lparr>Face_r = Some \<lparr>FaceId = Some ''f-a1'', BoundingBox = None :: unit option, ExternalImageId = Some ''placeholder''\<rparr>\<rparr>]\<rparr>
                 else if i = 1 then Rejected (ServiceException ''Throttled'')
                 else Fulfilled \<lparr>FaceRecords = Some
                   [\<lparr>Face_r = Some \<lparr>FaceId = Some ''f-c1'', BoundingBox = None :: unit option, ExternalImageId = Some ''placeholder''\<rparr>\<rparr>,
                    \<lparr>Face_r = Some \<lparr>FaceId = Some ''f-c2'', BoundingBox = None :: unit option, ExternalImageId = Some ''placeholder''\<rparr>\<rparr>,
                    \<lparr>Face_r = None\<rparr>]\<rparr>),
      index_order = [2, 0, 1],
      found = (\<lambda>j. if j = 0 then Fulfilled \<lparr>FaceMatches = Some
                   [\<lparr>Face = Some \<lparr>FaceId = Some ''f-zz'', BoundingBox = None :: unit option, ExternalImageId = Some ''placeholder''\<rparr>\<rparr>,
                    \<lparr>Face = Some \<lparr>FaceId = Some ''f-a1'', BoundingBox = None :: unit option, ExternalImageId = Some ''placeholder''\<rparr>\<rparr>]\<rparr>
               else if j = 1 then Rejected (ServiceException ''Throttled'')
               else Fulfilled \<lparr>FaceMatches = Some [\<lparr>Face = Some \<lparr>FaceId = Some ''f-c1'', BoundingBox = None :: unit option, ExternalImageId = Some ''placeholder''\<rparr>\<rparr>]\<rparr>),
      search_order = [2, 1, 0]\<rparr>
     [\<lparr>oid = 10, url = ''https://bkt.s3.amazonaws.com/a.jpg'', key = ''a.jpg''\<rparr>,
      \<lparr>oid = 11, url = ''https://bkt.s3.amazonaws.com/b.png'', key = ''b.png''\<rparr>,
      \<lparr>oid = 12, url = ''https://bkt.s3.amazonaws.com/c.jpeg'', key = ''c.jpeg''\<rparr>]
   = Inr [(''group_1'', [\<lparr>faceId = ''f-c1'', boundingBox = None :: unit option, img = \<lparr>oid = 12, url = ''https://bkt.s3.amazonaws.com/c.jpeg'', key = ''c.jpeg''\<rparr>\<rparr>,
        \<lparr>faceId = ''f-a1'', boundingBox = None :: unit option, img = \<lparr>oid = 10, url = ''https://bkt.s3.amazonaws.com/a.jpg'', key = ''a.jpg''\<rparr>\<rparr>]),
      (''group_2'', [\<lparr>faceId = ''f-c2'', boundingBox = None :: unit option, img = \<lparr>oid = 12, url = ''https://bkt.s3.amazonaws.com/c.jpeg'', key = ''c.jpeg''\<rparr>\<rparr>])]"
proof -
  let ?w = "\<lparr>listed = Rejected (ServiceException ''Unavailable''), created = Fulfilled (),
      indexed = (\<lambda>i. if i = 0 then Fulfilled \<lparr>FaceRecords = Some [\<lparr>Face_r = Some \<lparr>FaceId = Some ''f-a1'', BoundingBox = None :: unit option, ExternalImageId = Some ''placeholder''\<rparr>\<rparr>]\<rparr>
                 else if i = 1 then Rejected (ServiceException ''Throttled'')
                 else Fulfilled \<lparr>FaceRecords = Some
                   [\<lparr>Face_r = Some \<lparr>FaceId = Some ''f-c1'', BoundingBox = None :: unit option, ExternalImageId = Some ''placeholder''\<rparr>\<rparr>,
                    \<lparr>Face_r = Some \<lparr>FaceId = Some ''f-c2'', BoundingBox = None :: unit option, ExternalImageId = Some ''placeholder''\<rparr>\<rparr>,
                    \<lparr>Face_r = None\<rparr>]\<rparr>),
      index_order = [2, 0, 1],
      found = (\<lambda>j. if j = 0 then Fulfilled \<lparr>FaceMatches = Some
                   [\<lparr>Face = Some \<lparr>FaceId = Some ''f-zz'', BoundingBox = None :: unit option, ExternalImageId = Some ''placeholder''\<rparr>\<rparr>,
                    \<lparr>Face = Some \<lparr>FaceId = Some ''f-a1'', BoundingBox = None :: unit option, ExternalImageId = Some ''placeholder''\<rparr>\<rparr>]\<rparr>
               else if j = 1 then Rejected (ServiceException ''Throttled'')
               else Fulfilled \<lparr>FaceMatches = Some [\<lparr>Face = Some \<lparr>FaceId = Some ''f-c1'', BoundingBox = None :: unit option, ExternalImageId = Some ''placeholder''\<rparr>\<rparr>]\<rparr>),
      search_order = [2, 1, 0]\<rparr>"
  let ?ims = "[\<lparr>oid = 10, url = ''https://bkt.s3.amazonaws.com/a.jpg'', key = ''a.jpg''\<rparr>,
      \<lparr>oid = 11, url = ''https://bkt.s3.amazonaws.com/b.png'', key = ''b.png''\<rparr>,
      \<lparr>oid = 12, url = ''https://bkt.s3.amazonaws.com/c.jpeg'', key = ''c.jpeg''\<rparr>]"
  let ?temp = "[\<lparr>faceId = ''f-c1'', boundingBox = None :: unit option, img = \<lparr>oid = 12, url = ''https://bkt.s3.amazonaws.com/c.jpeg'', key = ''c.jpeg''\<rparr>\<rparr>, \<lparr>faceId = ''f-c2'', boundingBox = None :: unit option, img = \<lparr>oid = 12, url = ''https://bkt.s3.amazonaws.com/c.jpeg'', key = ''c.jpeg''\<rparr>\<rparr>, \<lparr>faceId = ''f-a1'', boundingBox = None :: unit option, img = \<lparr>oid = 10, url = ''https://bkt.s3.amazonaws.com/a.jpg'', key = ''a.jpg''\<rparr>\<rparr>]"
  have t: "index_phase ?w ?ims = ?temp"
    by (simp add: index_phase_def face_records_of_def)
  have m: "search_phase ?w ?temp = ([''f-a1'' \<mapsto> ''group_1'', ''f-c2'' \<mapsto> ''group_2'', ''f-c1'' \<mapsto> ''group_1''], 2)"
    by (simp add: search_phase_def search_settled_def matchedGroupIds_def new_group_def
        dec.simps digit_chars)
  have b: "bucket_by (resolved [''f-a1'' \<mapsto> ''group_1'', ''f-c2'' \<mapsto> ''group_2'', ''f-c1'' \<mapsto> ''group_1'']) ?temp [] = Inr [(''group_1'', [\<lparr>faceId = ''f-c1'', boundingBox = None :: unit option, img = \<lparr>oid = 12, url = ''https://bkt.s3.amazonaws.com/c.jpeg'', key = ''c.jpeg''\<rparr>\<rparr>,
        \<lparr>faceId = ''f-a1'', boundingBox = None :: unit option, img = \<lparr>oid = 10, url = ''https://bkt.s3.amazonaws.com/a.jpg'', key = ''a.jpg''\<rparr>\<rparr>]),
      (''group_2'', [\<lparr>faceId = ''f-c2'', boundingBox = None :: unit option, img = \<lparr>oid = 12, url = ''https://bkt.s3.amazonaws.com/c.jpeg'', key = ''c.jpeg''\<rparr>\<rparr>])]"
    by (simp add: resolved_def push_group_def inherited_def cong: sum.case_cong_weak)
  have h: "newGroups_A ?w ?ims = Inr [(''group_1'', [\<lparr>faceId = ''f-c1'', boundingBox = None :: unit option, img = \<lparr>oid = 12, url = ''https://bkt.s3.amazonaws.com/c.jpeg'', key = ''c.jpeg''\<rparr>\<rparr>,
        \<lparr>faceId = ''f-a1'', boundingBox = None :: unit option, img = \<lparr>oid = 10, url = ''https://bkt.s3.amazonaws.com/a.jpg'', key = ''a.jpg''\<rparr>\<rparr>]),
      (''group_2'', [\<lparr>faceId = ''f-c2'', boundingBox = None :: unit option, img = \<lparr>oid = 12, url = ''https://bkt.s3.amazonaws.com/c.jpeg'', key = ''c.jpeg''\<rparr>\<rparr>])]"
    by (simp only: newGroups_A_def Let_def t m fst_conv b)
  from partition_by_resolved_group[of ?w ?ims "\<lparr>deleting = [], images = [], faceGroups = [], error = None, loading = True,
      uploading = False, uploadProgress = 0, allFaceRecords = []\<rparr>"]
  obtain groups where "newGroups_A ?w ?ims = Inr groups" by blast
  with h show ?thesis by simp
qed

section \<open>Failures of the recognition service\<close>

lemma mset_concat_map_perm:
  assumes "mset xs = mset ys"
  shows "mset (concat (map F xs)) = mset (concat (map F ys))"
proof -
  have "mset (concat (map F zs)) = sum_mset (image_mset (\<lambda>z. mset (F z)) (mset zs))" for zs
    by (induction zs) simp_all
  with assms show ?thesis by simp
qed

lemma index_phase_all:
  assumes "mset (index_order w) = mset [0..<length ims]"
  shows "mset (index_phase w ims)
     = mset (concat (map (\<lambda>i. face_records_of (ims ! i) (indexed w i)) [0..<length ims]))"
proof -
  from assms have "set (index_order w) = set [0..<length ims]" by (rule mset_eq_setD)
  then have "set (index_order w) = {0..<length ims}" by simp
  then have "filter (\<lambda>i. i < length ims) (index_order w) = index_order w"
    by (auto simp: filter_id_conv)
  then show ?thesis
    unfolding index_phase_def using mset_concat_map_perm[OF assms] by simp
qed

lemma search_phase_resolves_all:
  assumes "mset (search_order w) = mset [0..<length temp]" and "faceRec \<in> set temp"
  shows "\<exists>k. fst (search_phase w temp) (faceId faceRec) = Some (''group_'' @ dec k)"
proof -
  from assms(1) have "set (search_order w) = set [0..<length temp]" by (rule mset_eq_setD)
  then have s: "set (search_order w) = {0..<length temp}" by simp
  from assms(2) obtain j where j: "j < length temp" "temp ! j = faceRec"
    by (auto simp: in_set_conv_nth)
  with s have "faceId faceRec \<in> dom (fst (search_phase w temp))"
    unfolding search_phase_dom by force
  then obtain gid where g: "fst (search_phase w temp) (faceId faceRec) = Some gid" by auto
  with search_phase_minted[of w temp] obtain k where "gid = ''group_'' @ dec k"
    unfolding minted_so_far_def by blast
  with g show ?thesis by blast
qed

lemma detectAndGroupFaces_A_completes:
  "\<exists>groups. detectAndGroupFaces_A w ims s
       = (s\<lparr>allFaceRecords := index_phase w ims, faceGroups := groups\<rparr>, None)
     \<and> mset (concat (map snd groups)) = mset (index_phase w ims)"
proof -
  from newGroups_A_total obtain groups where g: "newGroups_A w ims = Inr groups" by blast
  then have b: "bucket_by (resolved (fst (search_phase w (index_phase w ims))))
      (index_phase w ims) [] = Inr groups"
    by (simp add: newGroups_A_def Let_def)
  have "mset (concat (map snd groups)) = mset (index_phase w ims)"
    using bucket_by_mset[OF b] by simp
  moreover have "detectAndGroupFaces_A w ims s
       = (s\<lparr>allFaceRecords := index_phase w ims, faceGroups := groups\<rparr>, None)"
    by (simp add: detectAndGroupFaces_A_def g Let_def)
  ultimately show ?thesis by blast
qed

lemma mint_not_inherited: "mint st \<notin> set inherited"
  unfolding mint_def by (rule group_not_inherited)

lemma results_B_eq:
  "results_B w bucket eventId ims
     = map (\<lambda>(i, im). (key im, resolve_groupId w i im)) (enumerate 0 ims)"
  by (simp add: results_B_def group_image_eq case_prod_unfold)

lemma gid_B_range:
  "gid_B (results_B w bucket eventId ims) im = ''unknown''
   \<or> (\<exists>i<length ims. gid_B (results_B w bucket eventId ims) im = resolve_groupId w i (ims ! i))"
proof (cases "find (\<lambda>r. fst r = key im) (results_B w bucket eventId ims)")
  case None
  then show ?thesis by (simp add: gid_B_def)
next
  case (Some r)
  then have "r \<in> set (results_B w bucket eventId ims)"
    by (auto simp: find_Some_iff in_set_conv_nth)
  then obtain i where "i < length ims" "snd r = resolve_groupId w i (ims ! i)"
    unfolding results_B_eq by (auto simp: in_set_enumerate_eq)
  with Some show ?thesis by (auto simp: gid_B_def)
qed

lemma detectAndGroupFaces_B_completes:
  assumes "\<forall>i<length ims. resolve_groupId w i (ims ! i) \<notin> set inherited"
  shows "\<exists>groups. detectAndGroupFaces_B w bucket eventId ims s = (s\<lparr>faceGroups := groups\<rparr>, None)
     \<and> mset (concat (map snd groups)) = mset ims"
proof -
  have "\<forall>im \<in> set ims. gid_B (results_B w bucket eventId ims) im \<notin> set inherited"
  proof
    fix im
    from gid_B_range[of w bucket eventId ims im]
    show "gid_B (results_B w bucket eventId ims) im \<notin> set inherited"
    proof
      assume "gid_B (results_B w bucket eventId ims) im = ''unknown''"
      then show ?thesis by (simp add: inherited_def)
    next
      assume "\<exists>i<length ims. gid_B (results_B w bucket eventId ims) im
          = resolve_groupId w i (ims ! i)"
      with assms show ?thesis by auto
    qed
  qed
  then obtain groups where b: "bucket_by (gid_B (results_B w bucket eventId ims)) ims [] = Inr groups"
    using bucket_by_total by blast
  have "mset (concat (map snd groups)) = mset ims" using bucket_by_mset[OF b] by simp
  moreover have "detectAndGroupFaces_B w bucket eventId ims s = (s\<lparr>faceGroups := groups\<rparr>, None)"
    by (simp add: detectAndGroupFaces_B_def groups_B_def b)
  ultimately show ?thesis by blast
qed

lemma results_B_tagged:
  "results_B (w\<lparr>tagged := t\<rparr>) bucket eventId ims = results_B w bucket eventId ims"
proof -
  have "resolve_groupId (w\<lparr>tagged := t\<rparr>) i im = resolve_groupId w i im" for i im
    by (simp add: resolve_groupId_def Let_def)
  then show ?thesis by (simp add: results_B_eq)
qed

text \<open>
  Claim C5. A recognition call that fails is caught where it was made.
  Strategy A: an image whose index call fails adds no face record, and the face records
  of all images together are those of the calls that succeeded; a face whose search fails
  gets a new group id exactly as a face without matches does, and that id is not yet in
  the mapping; the pass completes, every face record has a group id and is in a group.
  Strategy B: an image whose search fails gets a minted group id, which never names an
  inherited property; the outcome of the index call changes no result; every image has a
  result, and the pass completes with every image in a group as long as no adopted tag
  names an inherited property.
  Every call of a batch settles exactly once: the orders are permutations of the
  positions.
\<close>

theorem recognition_failures_are_local:
  assumes "mset (index_order w) = mset [0..<length ims]"
    and "mset (search_order w) = mset [0..<length (index_phase w ims)]"
    and "\<forall>i<length imsB. resolve_groupId wB i (imsB ! i) \<notin> set inherited"
  shows "face_records_of im (Rejected e) = []
     \<and> mset (index_phase w ims)
         = mset (concat (map (\<lambda>i. face_records_of (ims ! i) (indexed w i)) [0..<length ims]))
     \<and> search_settled faceRec (Rejected e) g = new_group (faceId faceRec) g
     \<and> search_settled faceRec (Fulfilled \<lparr>FaceMatches = Some []\<rparr>) g
         = new_group (faceId faceRec) g
     \<and> fst (new_group fid g) fid = Some (''group_'' @ dec (snd g + 1))
     \<and> ''group_'' @ dec (snd (search_phase w' temp') + 1) \<notin> ran (fst (search_phase w' temp'))
     \<and> (\<exists>groups. detectAndGroupFaces_A w ims s
            = (s\<lparr>allFaceRecords := index_phase w ims, faceGroups := groups\<rparr>, None)
          \<and> mset (concat (map snd groups)) = mset (index_phase w ims))
     \<and> (\<forall>r \<in> set (index_phase w ims).
           \<exists>k. fst (search_phase w (index_phase w ims)) (faceId r) = Some (''group_'' @ dec k))
     \<and> (matched wB i = Rejected e \<longrightarrow> resolve_groupId wB i imB = mint (stamped wB i))
     \<and> mint st \<notin> set inherited
     \<and> results_B (wB\<lparr>tagged := t\<rparr>) bucket eventId imsB = results_B wB bucket eventId imsB
     \<and> map fst (results_B wB bucket eventId imsB) = map key imsB
     \<and> (\<exists>groups. detectAndGroupFaces_B wB bucket eventId imsB sB
            = (sB\<lparr>faceGroups := groups\<rparr>, None)
          \<and> mset (concat (map snd groups)) = mset imsB)"
proof -
  have c1: "face_records_of im (Rejected e) = []" by (simp add: face_records_of_def)
  note c2 = index_phase_all[OF assms(1)]
  have c3: "search_settled faceRec (Rejected e) g = new_group (faceId faceRec) g"
    by (simp add: search_settled_def)
  have c4: "search_settled faceRec (Fulfilled \<lparr>FaceMatches = Some []\<rparr>) g
         = new_group (faceId faceRec) g"
    by (simp add: search_settled_def)
  have c5: "fst (new_group fid g) fid = Some (''group_'' @ dec (snd g + 1))"
    by (simp add: new_group_def)
  have c6: "''group_'' @ dec (snd (search_phase w' temp') + 1) \<notin> ran (fst (search_phase w' temp'))"
    using search_phase_minted by (rule new_group_fresh)
  note c7 = detectAndGroupFaces_A_completes[of w ims s]
  have c8: "\<forall>r \<in> set (index_phase w ims).
           \<exists>k. fst (search_phase w (index_phase w ims)) (faceId r) = Some (''group_'' @ dec k)"
    using search_phase_resolves_all[OF assms(2)] by blast
  have c9: "matched wB i = Rejected e \<longrightarrow> resolve_groupId wB i imB = mint (stamped wB i)"
    by (simp add: resolve_groupId_def searched_groupId_def)
  note c10 = mint_not_inherited[of st]
  have c11: "results_B (wB\<lparr>tagged := t\<rparr>) bucket eventId imsB = results_B wB bucket eventId imsB"
    by (rule results_B_tagged)
  have c12: "map fst (results_B wB bucket eventId imsB) = map key imsB"
  proof -
    have "map fst (map (\<lambda>(i, im). (key im, f i im)) xs) = map key (map snd xs)"
      for f :: "nat \<Rightarrow> EventImage \<Rightarrow> string" and xs
      by (induction xs) auto
    then show ?thesis unfolding results_B_eq by (simp only: map_snd_enumerate)
  qed
  note c13 = detectAndGroupFaces_B_completes[OF assms(3), of bucket eventId sB]
  from c1 c2 c3 c4 c5 c6 c7 c8 c9 c10 c11 c12 c13 show ?thesis by (intro conjI)
qed

theorem recognition_failures_are_local_witness:
  "detectAndGroupFaces_A
     \<lparr>listed = Rejected (ServiceException ''Unavailable''), created = Fulfilled (),
      indexed = (\<lambda>i. if i = 0 then Fulfilled \<lparr>FaceRecords = Some [\<lparr>Face_r = Some \<lparr>FaceId = Some ''f-a1'', BoundingBox = None :: unit option, ExternalImageId = Some ''placeholder''\<rparr>\<rparr>]\<rparr>
                 else if i = 1 then Rejected (ServiceException ''Throttled'')
                 else Fulfilled \<lparr>FaceRecords = Some
                   [\<lparr>Face_r = Some \<lparr>FaceId = Some ''f-c1'', BoundingBox = None :: unit option, ExternalImageId = Some ''placeholder''\<rparr>\<rparr>,
                    \<lparr>Face_r = Some \<lparr>FaceId = Some ''f-c2'', BoundingBox = None :: unit option, ExternalImageId = Some ''placeholder''\<rparr>\<rparr>,
                    \<lparr>Face_r = None\<rparr>]\<rparr>),
      index_order = [2, 0, 1],
      found = (\<lambda>j. if j = 0 then Fulfilled \<lparr>FaceMatches = Some
                   [\<lparr>Face = Some \<lparr>FaceId = Some ''f-zz'', BoundingBox = None :: unit option, ExternalImageId = Some ''placeholder''\<rparr>\<rparr>,
                    \<lparr>Face = Some \<lparr>FaceId = Some ''f-a1'', BoundingBox = None :: unit option, ExternalImageId = Some ''placeholder''\<rparr>\<rparr>]\<rparr>
               else if j = 1 then Rejected (ServiceException ''Throttled'')
               else Fulfilled \<lparr>FaceMatches = Some [\<lparr>Face = Some \<lparr>FaceId = Some ''f-c1'', BoundingBox = None :: unit option, ExternalImageId = Some ''placeholder''\<rparr>\<rparr>]\<rparr>),
      search_order = [2, 1, 0]\<rparr>
     [\<lparr>oid = 10, url = ''https://bkt.s3.amazonaws.com/a.jpg'', key = ''a.jpg''\<rparr>,
      \<lparr>oid = 11, url = ''https://bkt.s3.amazonaws.com/b.png'', key = ''b.png''\<rparr>,
      \<lparr>oid = 12, url = ''https://bkt.s3.amazonaws.com/c.jpeg'', key = ''c.jpeg''\<rparr>]
     \<lparr>deleting = [], images = [], faceGroups = [], error = None, loading = True,
      uploading = False, uploadProgress = 0, allFaceRecords = []\<rparr>
   = (\<lparr>deleting = [], images = [], faceGroups = [], error = None, loading = True,
      uploading = False, uploadProgress = 0, allFaceRecords = []\<rparr>\<lparr>allFaceRecords := [\<lparr>faceId = ''f-c1'', boundingBox = None :: unit option, img = \<lparr>oid = 12, url = ''https://bkt.s3.amazonaws.com/c.jpeg'', key = ''c.jpeg''\<rparr>\<rparr>, \<lparr>faceId = ''f-c2'', boundingBox = None :: unit option, img = \<lparr>oid = 12, url = ''https://bkt.s3.amazonaws.com/c.jpeg'', key = ''c.jpeg''\<rparr>\<rparr>, \<lparr>faceId = ''f-a1'', boundingBox = None :: unit option, img = \<lparr>oid = 10, url = ''https://bkt.s3.amazonaws.com/a.jpg'', key = ''a.jpg''\<rparr>\<rparr>],
        faceGroups := [(''group_1'', [\<lparr>faceId = ''f-c1'', boundingBox = None :: unit option, img = \<lparr>oid = 12, url = ''https://bkt.s3.amazonaws.com/c.jpeg'', key = ''c.jpeg''\<rparr>\<rparr>,
        \<lparr>faceId = ''f-a1'', boundingBox = None :: unit option, img = \<lparr>oid = 10, url = ''https://bkt.s3.amazonaws.com/a.jpg'', key = ''a.jpg''\<rparr>\<rparr>]),
      (''group_2'', [\<lparr>faceId = ''f-c2'', boundingBox = None :: unit option, img = \<lparr>oid = 12, url = ''https://bkt.s3.amazonaws.com/c.jpeg'', key = ''c.jpeg''\<rparr>\<rparr>])]\<rparr>, None)
   \<and> (\<exists>groups. detectAndGroupFaces_B
     \<lparr>listed = Fulfilled (Some [''ev'']), created = Fulfilled (),
      matched = (\<lambda>i. if i = 0 then Rejected (ServiceException ''Throttled'')
                 else Fulfilled \<lparr>FaceMatches = Some
                   [\<lparr>Face = Some \<lparr>FaceId = Some ''f0'', BoundingBox = None :: unit option,
                                  ExternalImageId = Some ''b.png''\<rparr>\<rparr>,
                    \<lparr>Face = Some \<lparr>FaceId = Some ''f1'', BoundingBox = None,
                                  ExternalImageId = Some ''group_7_abc''\<rparr>\<rparr>]\<rparr>),
      stamped = (\<lambda>i. (1700000000000 + i, ''x1y2z3'')),
      tagged = (\<lambda>i. Rejected (ServiceException ''Throttled''))\<rparr>
     ''bkt'' ''ev''
     [\<lparr>oid = 10, url = ''https://bkt.s3.amazonaws.com/a.jpg'', key = ''a.jpg''\<rparr>,
      \<lparr>oid = 11, url = ''https://bkt.s3.amazonaws.com/b.png'', key = ''b.png''\<rparr>,
      \<lparr>oid = 12, url = ''https://bkt.s3.amazonaws.com/c.jpeg'', key = ''c.jpeg''\<rparr>]
     \<lparr>deleting = [], images = [], faceGroups = [], error = None, loading = True,
      uploading = False, uploadProgress = 0\<rparr> = (\<lparr>deleting = [], images = [], faceGroups = [], error = None, loading = True,
      uploading = False, uploadProgress = 0\<rparr>\<lparr>faceGroups := groups\<rparr>, None))"
proof -
  let ?w = "\<lparr>listed = Rejected (ServiceException ''Unavailable''), created = Fulfilled (),
      indexed = (\<lambda>i. if i = 0 then Fulfilled \<lparr>FaceRecords = Some [\<lparr>Face_r = Some \<lparr>FaceId = Some ''f-a1'', BoundingBox = None :: unit option, ExternalImageId = Some ''placeholder''\<rparr>\<rparr>]\<rparr>
                 else if i = 1 then Rejected (ServiceException ''Throttled'')
                 else Fulfilled \<lparr>FaceRecords = Some
                   [\<lparr>Face_r = Some \<lparr>FaceId = Some ''f-c1'', BoundingBox = None :: unit option, ExternalImageId = Some ''placeholder''\<rparr>\<rparr>,
                    \<lparr>Face_r = Some \<lparr>FaceId = Some ''f-c2'', BoundingBox = None :: unit option, ExternalImageId = Some ''placeholder''\<rparr>\<rparr>,
                    \<lparr>Face_r = None\<rparr>]\<rparr>),
      index_order = [2, 0, 1],
      found = (\<lambda>j. if j = 0 then Fulfilled \<lparr>FaceMatches = Some
                   [\<lparr>Face = Some \<lparr>FaceId = Some ''f-zz'', BoundingBox = None :: unit option, ExternalImageId = Some ''placeholder''\<rparr>\<rparr>,
                    \<lparr>Face = Some \<lparr>FaceId = Some ''f-a1'', BoundingBox = None :: unit option, ExternalImageId = Some ''placeholder''\<rparr>\<rparr>]\<rparr>
               else if j = 1 then Rejected (ServiceException ''Throttled'')
               else Fulfilled \<lparr>FaceMatches = Some [\<lparr>Face = Some \<lparr>FaceId = Some ''f-c1'', BoundingBox = None :: unit option, ExternalImageId = Some ''placeholder''\<rparr>\<rparr>]\<rparr>),
      search_order = [2, 1, 0]\<rparr>"
  let ?wB = "\<lparr>listed = Fulfilled (Some [''ev'']), created = Fulfilled (),
      matched = (\<lambda>i. if i = 0 then Rejected (ServiceException ''Throttled'')
                 else Fulfilled \<lparr>FaceMatches = Some
                   [\<lparr>Face = Some \<lparr>FaceId = Some ''f0'', BoundingBox = None :: unit option,
                                  ExternalImageId = Some ''b.png''\<rparr>\<rparr>,
                    \<lparr>Face = Some \<lparr>FaceId = Some ''f1'', BoundingBox = None,
                                  ExternalImageId = Some ''group_7_abc''\<rparr>\<rparr>]\<rparr>),
      stamped = (\<lambda>i. (1700000000000 + i, ''x1y2z3'')),
      tagged = (\<lambda>i. Rejected (ServiceException ''Throttled''))\<rparr>"
  let ?ims = "[\<lparr>oid = 10, url = ''https://bkt.s3.amazonaws.com/a.jpg'', key = ''a.jpg''\<rparr>,
      \<lparr>oid = 11, url = ''https://bkt.s3.amazonaws.com/b.png'', key = ''b.png''\<rparr>,
      \<lparr>oid = 12, url = ''https://bkt.s3.amazonaws.com/c.jpeg'', key = ''c.jpeg''\<rparr>]"
  let ?temp = "[\<lparr>faceId = ''f-c1'', boundingBox = None :: unit option, img = \<lparr>oid = 12, url = ''https://bkt.s3.amazonaws.com/c.jpeg'', key = ''c.jpeg''\<rparr>\<rparr>, \<lparr>faceId = ''f-c2'', boundingBox = None :: unit option, img = \<lparr>oid = 12, url = ''https://bkt.s3.amazonaws.com/c.jpeg'', key = ''c.jpeg''\<rparr>\<rparr>, \<lparr>faceId = ''f-a1'', boundingBox = None :: unit option, img = \<lparr>oid = 10, url = ''https://bkt.s3.amazonaws.com/a.jpg'', key = ''a.jpg''\<rparr>\<rparr>]"
  let ?s = "\<lparr>deleting = [], images = [], faceGroups = [], error = None, loading = True,
      uploading = False, uploadProgress = 0, allFaceRecords = []\<rparr>"
  let ?sB = "\<lparr>deleting = [], images = [], faceGroups = [], error = None, loading = True,
      uploading = False, uploadProgress = 0\<rparr>"
  have t: "index_phase ?w ?ims = ?temp"
    by (simp add: index_phase_def face_records_of_def)
  have m: "search_phase ?w ?temp = ([''f-a1'' \<mapsto> ''group_1'', ''f-c2'' \<mapsto> ''group_2'', ''f-c1'' \<mapsto> ''group_1''], 2)"
    by (simp add: search_phase_def search_settled_def matchedGroupIds_def new_group_def
        dec.simps digit_chars)
  have b: "bucket_by (resolved [''f-a1'' \<mapsto> ''group_1'', ''f-c2'' \<mapsto> ''group_2'', ''f-c1'' \<mapsto> ''group_1'']) ?temp [] = Inr [(''group_1'', [\<lparr>faceId = ''f-c1'', boundingBox = None :: unit option, img = \<lparr>oid = 12, url = ''https://bkt.s3.amazonaws.com/c.jpeg'', key = ''c.jpeg''\<rparr>\<rparr>,
        \<lparr>faceId = ''f-a1'', boundingBox = None :: unit option, img = \<lparr>oid = 10, url = ''https://bkt.s3.amazonaws.com/a.jpg'', key = ''a.jpg''\<rparr>\<rparr>]),
      (''group_2'', [\<lparr>faceId = ''f-c2'', boundingBox = None :: unit option, img = \<lparr>oid = 12, url = ''https://bkt.s3.amazonaws.com/c.jpeg'', key = ''c.jpeg''\<rparr>\<rparr>])]"
    by (simp add: resolved_def push_group_def inherited_def cong: sum.case_cong_weak)
  have n: "newGroups_A ?w ?ims = Inr [(''group_1'', [\<lparr>faceId = ''f-c1'', boundingBox = None :: unit option, img = \<lparr>oid = 12, url = ''https://bkt.s3.amazonaws.com/c.jpeg'', key = ''c.jpeg''\<rparr>\<rparr>,
        \<lparr>faceId = ''f-a1'', boundingBox = None :: unit option, img = \<lparr>oid = 10, url = ''https://bkt.s3.amazonaws.com/a.jpg'', key = ''a.jpg''\<rparr>\<rparr>]),
      (''group_2'', [\<lparr>faceId = ''f-c2'', boundingBox = None :: unit option, img = \<lparr>oid = 12, url = ''https://bkt.s3.amazonaws.com/c.jpeg'', key = ''c.jpeg''\<rparr>\<rparr>])]"
    by (simp only: newGroups_A_def Let_def t m fst_conv b)
  have u: "[0..<3] = [0, 1, 2]" by (simp add: upt_rec)
  have h1: "mset (index_order ?w) = mset [0..<length ?ims]" by (simp add: u)
  have h2: "mset (search_order ?w) = mset [0..<length (index_phase ?w ?ims)]"
    unfolding t by (simp add: u)
  have r: "results_B ?wB ''bkt'' ''ev'' ?ims
      = [(''a.jpg'', ''group_1700000000000_x1y2z3''), (''b.png'', ''group_7_abc''),
         (''c.jpeg'', ''b.png'')]"
    by (simp add: results_B_def group_image_eq resolve_groupId_eq foreign_tags_def
        dec.simps digit_chars)
  have h3: "\<forall>i<length ?ims. resolve_groupId ?wB i (?ims ! i) \<notin> set inherited"
  proof (intro allI impI)
    fix i assume "i < length ?ims"
    then have "i = 0 \<or> i = 1 \<or> i = 2" by auto
    then show "resolve_groupId ?wB i (?ims ! i) \<notin> set inherited"
      by (auto simp: resolve_groupId_eq foreign_tags_def inherited_def)
  qed
  note th = recognition_failures_are_local[OF h1 h2 h3,
      where s = ?s and sB = ?sB and bucket = "''bkt''" and eventId = "''ev''"]
  from th obtain groups where a: "detectAndGroupFaces_A ?w ?ims ?s
      = (?s\<lparr>allFaceRecords := index_phase ?w ?ims, faceGroups := groups\<rparr>, None)" by blast
  have "detectAndGroupFaces_A ?w ?ims ?s = (?s\<lparr>allFaceRecords := ?temp,
        faceGroups := [(''group_1'', [\<lparr>faceId = ''f-c1'', boundingBox = None :: unit option, img = \<lparr>oid = 12, url = ''https://bkt.s3.amazonaws.com/c.jpeg'', key = ''c.jpeg''\<rparr>\<rparr>,
        \<lparr>faceId = ''f-a1'', boundingBox = None :: unit option, img = \<lparr>oid = 10, url = ''https://bkt.s3.amazonaws.com/a.jpg'', key = ''a.jpg''\<rparr>\<rparr>]),
      (''group_2'', [\<lparr>faceId = ''f-c2'', boundingBox = None :: unit option, img = \<lparr>oid = 12, url = ''https://bkt.s3.amazonaws.com/c.jpeg'', key = ''c.jpeg''\<rparr>\<rparr>])]\<rparr>, None)"
    by (simp only: detectAndGroupFaces_A_def Let_def n t sum.case)
  moreover from th have "\<exists>groups. detectAndGroupFaces_B ?wB ''bkt'' ''ev'' ?ims ?sB
      = (?sB\<lparr>faceGroups := groups\<rparr>, None)" by blast
  ultimately show ?thesis by blast
qed

end
